theory Spec2Isabelle
  imports Main "HOL-Library.Word"
begin

unbundle bit_operations_syntax

section \<open>The persistence collaborator\<close>

text \<open>
  The application talks to a hosted record store (\<^verbatim>\<open>blink.db\<close>) whose client library is
  not part of the repository. Its collections are modelled as lists of rows, in
  storage order. Every call to the store is asynchronous and may reject; the
  \<open>faults\<close> plan of the store says, call by call, which of the coming calls reject
  (\<open>True\<close>: the call rejects); once the plan is used up every call succeeds.
  A row has the fields that the functions below read or write. A time stamp
  (\<^verbatim>\<open>new Date().toISOString()\<close> in the source) is the reading of the clock in ms.
\<close>

datatype role = Owner | Editor | Viewer

datatype action = Read | Write | Admin

datatype invite_role = InviteEditor | InviteViewer

record workspace_member =
  wm_id :: string
  wm_workspaceId :: string
  wm_userId :: string
  wm_role :: role

record workspace_invitation =
  wi_id :: string
  wi_workspaceId :: string
  wi_email :: "nat list"
  wi_role :: invite_role
  wi_invitedBy :: string
  wi_expiresAt :: int
  wi_acceptedAt :: "int option"
  wi_createdAt :: int

record prompt =
  p_id :: string
  p_title :: string
  p_content :: string
  p_description :: "string option"
  p_updated_at :: nat

record prompt_version =
  pv_id :: string
  pv_prompt_id :: string
  pv_version_number :: int
  pv_content :: string
  pv_title :: "string option"
  pv_description :: "string option"
  pv_user_id :: string
  pv_created_at :: nat

record prompt_session =
  ps_id :: string
  ps_prompt_id :: string
  ps_user_id :: string
  ps_cursor_position :: nat
  ps_selection_start :: nat
  ps_selection_end :: nat
  ps_user_color :: string
  ps_last_seen :: nat

record backend =
  workspaceMembers :: "workspace_member list"
  workspaceInvitations :: "workspace_invitation list"
  prompts :: "prompt list"
  prompt_versions :: "prompt_version list"
  prompt_sessions :: "prompt_session list"
  faults :: "bool list"

text \<open>
  Modelled from the spec: the persistence collaborator of section 6 (create, list with a
  filter and an order, update and delete over named collections). \<open>request\<close> is the
  start of one call: it tells whether the call goes through and uses up one entry of the
  fault plan.
\<close>

definition request :: "backend \<Rightarrow> bool \<times> backend" where
  "request b = (case faults b of
                  [] \<Rightarrow> (True, b)
                | f # fs \<Rightarrow> (\<not> f, b\<lparr>faults := fs\<rparr>))"

section \<open>Access control (src/utils/workspace-access.ts)\<close>

datatype error_code = FORBIDDEN | NOT_FOUND

text \<open>
  \<open>WorkspaceAccessError message code\<close> is the class of the source; its constructor gives
  the code \<open>FORBIDDEN\<close> when none is passed.
\<close>

datatype access_error = WorkspaceAccessError string error_code

definition members_of :: "string \<Rightarrow> string \<Rightarrow> backend \<Rightarrow> workspace_member list" where
  "members_of workspaceId userId b =
     filter (\<lambda>m. wm_workspaceId m = workspaceId \<and> wm_userId m = userId) (workspaceMembers b)"

definition owners_of :: "string \<Rightarrow> backend \<Rightarrow> workspace_member list" where
  "owners_of workspaceId b =
     filter (\<lambda>m. wm_workspaceId m = workspaceId \<and> wm_role m = Owner) (workspaceMembers b)"

definition checkWorkspaceAccess ::
  "string \<Rightarrow> string \<Rightarrow> backend \<Rightarrow> (access_error + role) \<times> backend" where
  "checkWorkspaceAccess workspaceId userId b =
     (case request b of
        (False, b1) \<Rightarrow>
          (Inl (WorkspaceAccessError ''Failed to check workspace access'' NOT_FOUND), b1)
      | (True, b1) \<Rightarrow>
          (case members_of workspaceId userId b1 of
             [] \<Rightarrow> (Inl (WorkspaceAccessError
                        ''Access denied: You are not a member of this workspace'' FORBIDDEN), b1)
           | m # _ \<Rightarrow> (Inr (wm_role m), b1)))"

text \<open>
  The guard of \<open>removeWorkspaceMember\<close> against removing the last owner: the owners are
  listed only when the requester removes themself and is an owner.
\<close>

definition lastOwnerCheck ::
  "string \<Rightarrow> string \<Rightarrow> string \<Rightarrow> role \<Rightarrow> backend \<Rightarrow> (access_error + unit) \<times> backend" where
  "lastOwnerCheck workspaceId userId requestingUserId requestingUserRole b =
     (if requestingUserId = userId \<and> requestingUserRole = Owner then
        (case request b of
           (False, b1) \<Rightarrow>
             (Inl (WorkspaceAccessError ''Failed to remove member from workspace'' FORBIDDEN), b1)
         | (True, b1) \<Rightarrow>
             (if length (owners_of workspaceId b1) \<le> 1
              then (Inl (WorkspaceAccessError
                           ''Cannot remove the last owner from workspace'' FORBIDDEN), b1)
              else (Inr (), b1)))
      else (Inr (), b))"

text \<open>The last block of \<open>removeWorkspaceMember\<close>: find the target's rows, delete the first by id.\<close>

definition deleteMember :: "string \<Rightarrow> string \<Rightarrow> backend \<Rightarrow> (access_error + unit) \<times> backend" where
  "deleteMember workspaceId userId b =
     (case request b of
        (False, b1) \<Rightarrow>
          (Inl (WorkspaceAccessError ''Failed to remove member from workspace'' FORBIDDEN), b1)
      | (True, b1) \<Rightarrow>
          (case members_of workspaceId userId b1 of
             [] \<Rightarrow> (Inr (), b1)
           | m # _ \<Rightarrow>
               (case request b1 of
                  (False, b2) \<Rightarrow>
                    (Inl (WorkspaceAccessError
                            ''Failed to remove member from workspace'' FORBIDDEN), b2)
                | (True, b2) \<Rightarrow>
                    (Inr (), b2\<lparr>workspaceMembers :=
                                  filter (\<lambda>x. wm_id x \<noteq> wm_id m) (workspaceMembers b2)\<rparr>))))"

definition removeWorkspaceMember ::
  "string \<Rightarrow> string \<Rightarrow> string \<Rightarrow> backend \<Rightarrow> (access_error + unit) \<times> backend" where
  "removeWorkspaceMember workspaceId userId requestingUserId b =
     (case checkWorkspaceAccess workspaceId requestingUserId b of
        (Inl e, b1) \<Rightarrow> (Inl e, b1)
      | (Inr requestingUserRole, b1) \<Rightarrow>
          (if requestingUserRole \<noteq> Owner \<and> requestingUserId \<noteq> userId
           then (Inl (WorkspaceAccessError
                        ''Only workspace owners can remove other members'' FORBIDDEN), b1)
           else
             (case lastOwnerCheck workspaceId userId requestingUserId requestingUserRole b1 of
                (Inl e, b2) \<Rightarrow> (Inl e, b2)
              | (Inr _, b2) \<Rightarrow> deleteMember workspaceId userId b2)))"

text \<open>
  The parameter types of \<open>canPerformAction\<close> are the closed unions
  \<^verbatim>\<open>'owner' | 'editor' | 'viewer'\<close> and \<^verbatim>\<open>'read' | 'write' | 'admin'\<close>, so the
  \<^verbatim>\<open>default\<close> branch of its switch has no input.
\<close>

fun canPerformAction :: "role \<Rightarrow> action \<Rightarrow> bool" where
  "canPerformAction userRole Read = (userRole \<in> set [Owner, Editor, Viewer])"
| "canPerformAction userRole Write = (userRole \<in> set [Owner, Editor])"
| "canPerformAction userRole Admin = (userRole = Owner)"


section \<open>Invitations (the workspace members panel)\<close>

subsection \<open>The \<^verbatim>\<open>Date\<close> object\<close>

text \<open>
  A \<^verbatim>\<open>Date\<close> holds a time value, the milliseconds since the epoch in UTC. Its
  calendar methods are the abstract operations of ECMAScript (section "Date Objects"):
  \<^verbatim>\<open>getDate\<close> reads the day of the month of the local time, \<^verbatim>\<open>setDate\<close> rebuilds the
  time value from the year and month of the local time and the day number it is given.
  The offset of local time, \<open>LocalTZA\<close>, belongs to the host and is a parameter \<open>tza\<close>.
\<close>

definition msPerDay :: int where
  "msPerDay = 86400000"

definition Day :: "int \<Rightarrow> int" where
  "Day t = t div msPerDay"

definition TimeWithinDay :: "int \<Rightarrow> int" where
  "TimeWithinDay t = t mod msPerDay"

definition DaysInYear :: "int \<Rightarrow> int" where
  "DaysInYear y = (if y mod 4 \<noteq> 0 then 365 else if y mod 100 \<noteq> 0 then 366
                   else if y mod 400 \<noteq> 0 then 365 else 366)"

definition DayFromYear :: "int \<Rightarrow> int" where
  "DayFromYear y = 365 * (y - 1970) + (y - 1969) div 4 - (y - 1901) div 100 + (y - 1601) div 400"

text \<open>
  \<open>YearFromTime t\<close> is the largest year that starts at or before \<open>t\<close>: the estimate from
  the mean length of a year is off by one at most.
\<close>

definition YearFromTime :: "int \<Rightarrow> int" where
  "YearFromTime t =
     (let d = Day t; y = 1970 + (d * 10000) div 3652425
      in if DayFromYear (y + 1) \<le> d then y + 1 else if DayFromYear y \<le> d then y else y - 1)"

definition InLeapYear :: "int \<Rightarrow> int" where
  "InLeapYear t = (if DaysInYear (YearFromTime t) = 366 then 1 else 0)"

definition DayWithinYear :: "int \<Rightarrow> int" where
  "DayWithinYear t = Day t - DayFromYear (YearFromTime t)"

text \<open>The day within the year on which month \<open>m\<close> (0 to 11) starts; \<open>l\<close> is 1 in a leap year.\<close>

definition monthStart :: "int \<Rightarrow> int \<Rightarrow> int" where
  "monthStart m l =
     (if m = 0 then 0 else if m = 1 then 31 else if m = 2 then 59 + l
      else if m = 3 then 90 + l else if m = 4 then 120 + l else if m = 5 then 151 + l
      else if m = 6 then 181 + l else if m = 7 then 212 + l else if m = 8 then 243 + l
      else if m = 9 then 273 + l else if m = 10 then 304 + l else 334 + l)"

definition MonthFromTime :: "int \<Rightarrow> int" where
  "MonthFromTime t =
     (let d = DayWithinYear t; l = InLeapYear t
      in if d < 31 then 0 else if d < 59 + l then 1 else if d < 90 + l then 2
         else if d < 120 + l then 3 else if d < 151 + l then 4 else if d < 181 + l then 5
         else if d < 212 + l then 6 else if d < 243 + l then 7 else if d < 273 + l then 8
         else if d < 304 + l then 9 else if d < 334 + l then 10 else 11)"

definition DateFromTime :: "int \<Rightarrow> int" where
  "DateFromTime t = DayWithinYear t - monthStart (MonthFromTime t) (InLeapYear t) + 1"

definition MakeDay :: "int \<Rightarrow> int \<Rightarrow> int \<Rightarrow> int" where
  "MakeDay year month date =
     (let ym = year + month div 12; mn = month mod 12
      in DayFromYear ym + monthStart mn (if DaysInYear ym = 366 then 1 else 0) + date - 1)"

definition MakeDate :: "int \<Rightarrow> int \<Rightarrow> int" where
  "MakeDate day time = day * msPerDay + time"

definition LocalTime :: "(int \<Rightarrow> bool \<Rightarrow> int) \<Rightarrow> int \<Rightarrow> int" where
  "LocalTime tza t = t + tza t True"

definition UTC :: "(int \<Rightarrow> bool \<Rightarrow> int) \<Rightarrow> int \<Rightarrow> int" where
  "UTC tza t = t - tza t False"

text \<open>\<open>TimeClip\<close> gives no time value (\<^verbatim>\<open>NaN\<close>, an invalid date) out of range.\<close>

definition TimeClip :: "int \<Rightarrow> int option" where
  "TimeClip time = (if \<bar>time\<bar> > 8640000000000000 then None else Some time)"

definition getDate :: "(int \<Rightarrow> bool \<Rightarrow> int) \<Rightarrow> int \<Rightarrow> int" where
  "getDate tza tv = DateFromTime (LocalTime tza tv)"

definition setDate :: "(int \<Rightarrow> bool \<Rightarrow> int) \<Rightarrow> int \<Rightarrow> int \<Rightarrow> int option" where
  "setDate tza tv dt =
     (let t = LocalTime tza tv;
          newDate = MakeDate (MakeDay (YearFromTime t) (MonthFromTime t) dt) (TimeWithinDay t)
      in TimeClip (UTC tza newDate))"

subsection \<open>Strings\<close>

text \<open>
  The text of the address field is a string of the host language: a list of UTF-16 code
  units. \<^verbatim>\<open>String.prototype.trim\<close> strips, at both ends, the code units of \<open>WhiteSpace\<close>
  (tab, vertical tab, form feed, the byte order mark and the space separators of
  Unicode, the no-break space among them) and of \<open>LineTerminator\<close>.
\<close>

type_synonym text16 = "nat list"

definition isWhiteSpace :: "nat \<Rightarrow> bool" where
  "isWhiteSpace c =
     (c \<in> set [9, 10, 11, 12, 13, 32, 160, 5760, 8232, 8233, 8239, 8287, 12288, 65279] \<or>
      (8192 \<le> c \<and> c \<le> 8202))"

definition trim :: "text16 \<Rightarrow> text16" where
  "trim s = rev (dropWhile isWhiteSpace (rev (dropWhile isWhiteSpace s)))"

subsection \<open>The panel\<close>

text \<open>
  The state of the \<^verbatim>\<open>WorkspaceMembers\<close> component: its three props and the state
  variables the invitation handlers use.
\<close>

record members_panel =
  mp_workspaceId :: string
  mp_userRole :: role
  mp_userId :: string
  invitations :: "workspace_invitation list"
  inviteEmail :: text16
  inviteRole :: invite_role
  inviteDialogOpen :: bool
  inviting :: bool

definition pendingInvitations :: "string \<Rightarrow> backend \<Rightarrow> workspace_invitation list" where
  "pendingInvitations workspaceId b =
     sort_key (\<lambda>i. - wi_createdAt i)
       (filter (\<lambda>i. wi_workspaceId i = workspaceId \<and> wi_acceptedAt i = None)
          (workspaceInvitations b))"

definition loadInvitations :: "members_panel \<times> backend \<Rightarrow> members_panel \<times> backend" where
  "loadInvitations = (\<lambda>(v, b).
     (case request b of
        (False, b1) \<Rightarrow> (v, b1)
      | (True, b1) \<Rightarrow> (v\<lparr>invitations := pendingInvitations (mp_workspaceId v) b1\<rparr>, b1)))"

text \<open>
  \<open>handleInviteMember toLowerCase tza now rowId\<close>: \<open>toLowerCase\<close> is the case mapping of
  the host (\<^verbatim>\<open>String.prototype.toLowerCase\<close>, whose Unicode table is not written out
  here), \<open>now\<close> is the time value of \<^verbatim>\<open>new Date()\<close> and \<open>rowId\<close> the id the store gives
  the new row (the row is created without \<^verbatim>\<open>acceptedAt\<close>). An invalid date makes
  \<^verbatim>\<open>toISOString\<close> throw inside the \<^verbatim>\<open>try\<close> block, before the store is called.
\<close>

definition handleInviteMember ::
  "(text16 \<Rightarrow> text16) \<Rightarrow> (int \<Rightarrow> bool \<Rightarrow> int) \<Rightarrow> int \<Rightarrow> string \<Rightarrow>
     members_panel \<times> backend \<Rightarrow> members_panel \<times> backend" where
  "handleInviteMember toLowerCase tza now rowId = (\<lambda>(v, b).
     if trim (inviteEmail v) = [] then (v, b)
     else if \<not> canPerformAction (mp_userRole v) Admin then (v, b)
     else
       (case setDate tza now (getDate tza now + 7) of
          None \<Rightarrow> (v\<lparr>inviting := False\<rparr>, b)
        | Some expiresAt \<Rightarrow>
            (case request b of
               (False, b1) \<Rightarrow> (v\<lparr>inviting := False\<rparr>, b1)
             | (True, b1) \<Rightarrow>
                 (let row = \<lparr>wi_id = rowId, wi_workspaceId = mp_workspaceId v,
                             wi_email = trim (toLowerCase (inviteEmail v)),
                             wi_role = inviteRole v, wi_invitedBy = mp_userId v,
                             wi_expiresAt = expiresAt, wi_acceptedAt = None,
                             wi_createdAt = now\<rparr>;
                      b2 = b1\<lparr>workspaceInvitations := workspaceInvitations b1 @ [row]\<rparr>;
                      (v1, b3) = loadInvitations (v\<lparr>inviteEmail := [], inviteDialogOpen := False\<rparr>, b2)
                  in (v1\<lparr>inviting := False\<rparr>, b3)))))"


section \<open>The collaborative editor\<close>

subsection \<open>State\<close>

record user =
  u_id :: string
  u_email :: string
  u_display_name :: "string option"

text \<open>
  The payload of a \<^verbatim>\<open>content_change\<close> broadcast. The handler reads \<^verbatim>\<open>content\<close> as it
  is and guards \<^verbatim>\<open>title\<close> and \<^verbatim>\<open>description\<close> with \<^verbatim>\<open>|| ''\<close>, so these two may be
  absent.
\<close>

record change_data =
  cd_content :: string
  cd_title :: "string option"
  cd_description :: "string option"
  cd_timestamp :: nat

record message =
  msg_type :: string
  msg_userId :: string
  msg_data :: change_data

record publication =
  pub_topic :: string
  pub_type :: string
  pub_data :: change_data

text \<open>
  What one call of \<open>startRealtimeUpdates\<close> leaves open: the channel object it made, with
  the \<^verbatim>\<open>userId\<close> and the metadata it subscribed with, and \<open>sub_self\<close>, the
  \<^verbatim>\<open>currentUser?.id\<close> that the message handler it registered compares the sender with
  (\<open>None\<close>: undefined).
\<close>

record subscription =
  sub_topic :: string
  sub_userId :: string
  sub_displayName :: string
  sub_color :: string
  sub_self :: "string option"

text \<open>
  Modelled from the spec: the realtime channel collaborator of section 6
  (\<^verbatim>\<open>blink.realtime\<close>), as the list of what was published and the list of the
  subscriptions that are open. Publishing and subscribing are taken to succeed.
\<close>

record channel =
  published :: "publication list"
  subscriptions :: "subscription list"

text \<open>
  What the function \<open>savePrompt\<close> of one render closes over (its dependency list, the
  prop \<open>promptId\<close> apart). A timer callback keeps the \<open>savePrompt\<close> of the render that
  armed it.
\<close>

record save_closure =
  sc_prompt :: "prompt option"
  sc_currentUser :: "user option"
  sc_versions :: "prompt_version list"

text \<open>
  A pending \<^verbatim>\<open>setTimeout\<close>: the time at which it is due and what its callback
  \<^verbatim>\<open>() => savePrompt(content, title, description)\<close> captured.
\<close>

record timer =
  tm_due :: nat
  tm_content :: string
  tm_title :: string
  tm_description :: string
  tm_save :: save_closure

text \<open>
  The state of one \<^verbatim>\<open>CollaborativeEditor\<close>. \<open>saveTimeoutRef\<close> is \<open>None\<close> when the ref
  is unset or names a timer that has fired or was cleared (clearing such a timer does
  nothing). \<open>closed\<close> records that the \<^verbatim>\<open>onClose\<close> prop was called. The component
  renders between two events, so a handler runs with the state as the event before left
  it; the roster of the other users (\<^verbatim>\<open>activeSessions\<close>) is left out.
\<close>

record editor =
  promptId :: string
  prompt :: "prompt option"
  content :: string
  title :: string
  description :: string
  versions :: "prompt_version list"
  currentUser :: "user option"
  isLoading :: bool
  isSaving :: bool
  lastSaved :: "nat option"
  saveTimeoutRef :: "timer option"
  currentSessionId :: "string option"
  closed :: bool

text \<open>
  The editor with its collaborators. \<open>randoms\<close> is the sequence of the suffixes
  \<^verbatim>\<open>Math.random().toString(36).substr(2, 9)\<close> that the host will produce and \<open>drawn\<close>
  counts those used.
\<close>

record world =
  ed :: editor
  store :: backend
  chan :: channel
  randoms :: "nat \<Rightarrow> string"
  drawn :: nat

subsection \<open>Helpers of the host language\<close>

text \<open>\<^verbatim>\<open>x || d\<close> for a string \<open>x\<close> that may be absent: the empty string is falsy too.\<close>

definition or_default :: "string option \<Rightarrow> string \<Rightarrow> string" where
  "or_default x d = (case x of None \<Rightarrow> d | Some s \<Rightarrow> if s = [] then d else s)"

text \<open>The digits of a number, as a template literal prints \<^verbatim>\<open>Date.now()\<close>.\<close>

function decimal :: "nat \<Rightarrow> string" where
  "decimal n = (if n < 10 then [''0123456789'' ! n]
                else decimal (n div 10) @ [''0123456789'' ! (n mod 10)])"
  by pat_completeness auto
termination
  by (relation "measure id") auto

definition random_suffix :: "world \<Rightarrow> string \<times> world" where
  "random_suffix w = (randoms w (drawn w), w\<lparr>drawn := Suc (drawn w)\<rparr>)"

definition USER_COLORS :: "string list" where
  "USER_COLORS = [''#ef4444'', ''#f97316'', ''#eab308'', ''#22c55e'',
                  ''#06b6d4'', ''#3b82f6'', ''#8b5cf6'', ''#ec4899'']"

text \<open>
  The hash runs in 32-bit integers: \<^verbatim>\<open>a << 5\<close> and \<^verbatim>\<open>a & a\<close> convert to \<^verbatim>\<open>Int32\<close>, and
  the sum between them is exact.
\<close>

definition getUserColor :: "string \<Rightarrow> string" where
  "getUserColor userId =
     (let hash = fold (\<lambda>b a. push_bit 5 a - a + of_nat (of_char b)) userId (0 :: 32 word)
      in USER_COLORS ! (nat \<bar>sint hash\<bar> mod length USER_COLORS))"

definition topic :: "string \<Rightarrow> string" where
  "topic pid = ''prompt_'' @ pid"

subsection \<open>Versions\<close>

definition versions_of :: "string \<Rightarrow> backend \<Rightarrow> prompt_version list" where
  "versions_of pid b = filter (\<lambda>v. pv_prompt_id v = pid) (prompt_versions b)"

text \<open>The query of \<open>loadVersions\<close>: by version number, highest first, 20 rows at most.\<close>

definition latestVersions :: "string \<Rightarrow> backend \<Rightarrow> prompt_version list" where
  "latestVersions pid b = take 20 (sort_key (\<lambda>v. - pv_version_number v) (versions_of pid b))"

definition loadVersions :: "world \<Rightarrow> world" where
  "loadVersions w =
     (case request (store w) of
        (False, b) \<Rightarrow> w\<lparr>store := b\<rparr>
      | (True, b) \<Rightarrow> w\<lparr>store := b, ed := (ed w)\<lparr>versions := latestVersions (promptId (ed w)) b\<rparr>\<rparr>)"

text \<open>\<^verbatim>\<open>Math.max(...versions.map(v => v.version_number), 0) + 1\<close>\<close>

definition nextVersionNumber :: "prompt_version list \<Rightarrow> int" where
  "nextVersionNumber vs = fold max (map pv_version_number vs) 0 + 1"

text \<open>The row that \<open>savePrompt\<close> gives to \<^verbatim>\<open>blink.db.prompt_versions.create\<close>.\<close>

definition newVersion ::
  "string \<Rightarrow> prompt_version list \<Rightarrow> user \<Rightarrow> nat \<Rightarrow> string \<Rightarrow> string \<Rightarrow> string \<Rightarrow> string \<Rightarrow> prompt_version" where
  "newVersion pid vs user now suffix newContent newTitle newDescription =
     \<lparr>pv_id = ''version_'' @ decimal now @ ''_'' @ suffix,
      pv_prompt_id = pid,
      pv_version_number = nextVersionNumber vs,
      pv_content = newContent, pv_title = Some newTitle,
      pv_description = Some newDescription,
      pv_user_id = u_id user, pv_created_at = now\<rparr>"

definition closure_of :: "editor \<Rightarrow> save_closure" where
  "closure_of e = \<lparr>sc_prompt = prompt e, sc_currentUser = currentUser e, sc_versions = versions e\<rparr>"

text \<open>The update that \<open>savePrompt\<close> gives to \<^verbatim>\<open>blink.db.prompts.update\<close> for the row \<open>pid\<close>.\<close>

definition updatedPrompts ::
  "string \<Rightarrow> nat \<Rightarrow> string \<Rightarrow> string \<Rightarrow> string \<Rightarrow> prompt list \<Rightarrow> prompt list" where
  "updatedPrompts pid now newContent newTitle newDescription ps =
     map (\<lambda>p. if p_id p = pid
               then p\<lparr>p_content := newContent, p_title := newTitle,
                      p_description := Some newDescription, p_updated_at := now\<rparr>
               else p) ps"

text \<open>
  \<open>savePrompt cl now\<close>: the call of the \<open>savePrompt\<close> of closure \<open>cl\<close> at time \<open>now\<close>. The
  calls to the store run one after the other; a rejected call goes to the \<^verbatim>\<open>catch\<close>
  block, and \<^verbatim>\<open>finally\<close> resets \<open>isSaving\<close>. The run is taken as one step: nothing else
  happens in this editor while it waits for the store.
\<close>

definition savePrompt :: "save_closure \<Rightarrow> nat \<Rightarrow> string \<Rightarrow> string \<Rightarrow> string \<Rightarrow> world \<Rightarrow> world" where
  "savePrompt cl now newContent newTitle newDescription w =
     (case (sc_prompt cl, sc_currentUser cl) of
        (Some _, Some user) \<Rightarrow>
          (case request (store w) of
             (False, b1) \<Rightarrow> w\<lparr>store := b1, ed := (ed w)\<lparr>isSaving := False\<rparr>\<rparr>
           | (True, b1) \<Rightarrow>
               (let b2 = b1\<lparr>prompts := updatedPrompts (promptId (ed w)) now
                                            newContent newTitle newDescription (prompts b1)\<rparr>;
                    (suffix, w1) = random_suffix w;
                    row = newVersion (promptId (ed w)) (sc_versions cl) user now suffix
                            newContent newTitle newDescription
                in case request b2 of
                     (False, b3) \<Rightarrow> w1\<lparr>store := b3, ed := (ed w)\<lparr>isSaving := False\<rparr>\<rparr>
                   | (True, b3) \<Rightarrow>
                       (let w2 = loadVersions
                                   (w1\<lparr>store := b3\<lparr>prompt_versions := prompt_versions b3 @ [row]\<rparr>,
                                       ed := (ed w)\<lparr>lastSaved := Some now\<rparr>\<rparr>)
                        in w2\<lparr>ed := (ed w2)\<lparr>isSaving := False\<rparr>\<rparr>)))
      | _ \<Rightarrow> w)"

subsection \<open>The broadcast channel\<close>

definition publish :: "string \<Rightarrow> string \<Rightarrow> change_data \<Rightarrow> channel \<Rightarrow> channel" where
  "publish tp ty d c = c\<lparr>published := published c @ [\<lparr>pub_topic = tp, pub_type = ty, pub_data = d\<rparr>]\<rparr>"

definition unsubscribe :: "string \<Rightarrow> string \<Rightarrow> channel \<Rightarrow> channel" where
  "unsubscribe tp uid c =
     c\<lparr>subscriptions := filter (\<lambda>s. \<not> (sub_topic s = tp \<and> sub_userId s = uid)) (subscriptions c)\<rparr>"

text \<open>
  The handler that \<open>startRealtimeUpdates\<close> gives to \<^verbatim>\<open>channel.onMessage\<close>. It compares
  the sender with \<^verbatim>\<open>currentUser?.id\<close>, which is undefined, and so differs from every
  sender, while no user is set.
\<close>

definition onMessage :: "message \<Rightarrow> world \<Rightarrow> world" where
  "onMessage msg w =
     (if msg_type msg = ''content_change'' \<and>
         Some (msg_userId msg) \<noteq> map_option u_id (currentUser (ed w))
      then w\<lparr>ed := (ed w)\<lparr>content := cd_content (msg_data msg),
                           title := or_default (cd_title (msg_data msg)) [],
                           description := or_default (cd_description (msg_data msg)) []\<rparr>\<rparr>
      else w)"

text \<open>
  The same handler as a call of \<open>startRealtimeUpdates\<close> registers it: the function closes
  over the \<^verbatim>\<open>currentUser\<close> of the render that made it (dependency list, line 193), so
  the handler keeps comparing with \<open>self\<close>, the id of that user, whatever the state
  becomes. \<open>onMessage\<close> is the handler registered by the render then current.
\<close>

definition receive :: "string option \<Rightarrow> message \<Rightarrow> world \<Rightarrow> world" where
  "receive self msg w =
     (if msg_type msg = ''content_change'' \<and> Some (msg_userId msg) \<noteq> self
      then w\<lparr>ed := (ed w)\<lparr>content := cd_content (msg_data msg),
                           title := or_default (cd_title (msg_data msg)) [],
                           description := or_default (cd_description (msg_data msg)) []\<rparr>\<rparr>
      else w)"

text \<open>
  \<open>startRealtimeUpdates cu\<close> is the function of a render whose \<^verbatim>\<open>currentUser\<close> is \<open>cu\<close>. It
  subscribes and returns, with the new state, the function that undoes the subscription
  (its \<^verbatim>\<open>return () => { channel.unsubscribe() }\<close>).
\<close>

definition startRealtimeUpdates :: "user option \<Rightarrow> world \<Rightarrow> (world \<Rightarrow> world) \<times> world" where
  "startRealtimeUpdates cu w =
     (let uid = or_default (map_option u_id cu) ''anonymous'';
          name = or_default (case cu of None \<Rightarrow> None | Some u \<Rightarrow> u_display_name u)
                   (or_default (map_option u_email cu) ''Anonymous'');
          tp = topic (promptId (ed w));
          sub = \<lparr>sub_topic = tp, sub_userId = uid, sub_displayName = name,
                 sub_color = getUserColor uid, sub_self = map_option u_id cu\<rparr>
      in (\<lambda>x. x\<lparr>chan := unsubscribe tp uid (chan x)\<rparr>,
          w\<lparr>chan := (chan w)\<lparr>subscriptions := subscriptions (chan w) @ [sub]\<rparr>\<rparr>))"


subsection \<open>Local edits, manual save, restore\<close>

definition arm :: "nat \<Rightarrow> string \<Rightarrow> string \<Rightarrow> string \<Rightarrow> editor \<Rightarrow> timer" where
  "arm now c t d e = \<lparr>tm_due = now + 2000, tm_content = c, tm_title = t, tm_description = d,
                       tm_save = closure_of e\<rparr>"

text \<open>
  Each handler sets its state variable, publishes the three fields, clears the timer
  of \<open>saveTimeoutRef\<close> and arms a new one, 2000 ms ahead, with the values of its render.
\<close>

definition handleContentChange :: "nat \<Rightarrow> string \<Rightarrow> world \<Rightarrow> world" where
  "handleContentChange now newContent w =
     (let e = ed w
      in w\<lparr>ed := e\<lparr>content := newContent,
                     saveTimeoutRef := Some (arm now newContent (title e) (description e) e)\<rparr>,
           chan := publish (topic (promptId e)) ''content_change''
                     \<lparr>cd_content = newContent, cd_title = Some (title e),
                      cd_description = Some (description e), cd_timestamp = now\<rparr> (chan w)\<rparr>)"

definition handleTitleChange :: "nat \<Rightarrow> string \<Rightarrow> world \<Rightarrow> world" where
  "handleTitleChange now newTitle w =
     (let e = ed w
      in w\<lparr>ed := e\<lparr>title := newTitle,
                     saveTimeoutRef := Some (arm now (content e) newTitle (description e) e)\<rparr>,
           chan := publish (topic (promptId e)) ''content_change''
                     \<lparr>cd_content = content e, cd_title = Some newTitle,
                      cd_description = Some (description e), cd_timestamp = now\<rparr> (chan w)\<rparr>)"

definition handleDescriptionChange :: "nat \<Rightarrow> string \<Rightarrow> world \<Rightarrow> world" where
  "handleDescriptionChange now newDescription w =
     (let e = ed w
      in w\<lparr>ed := e\<lparr>description := newDescription,
                     saveTimeoutRef := Some (arm now (content e) (title e) newDescription e)\<rparr>,
           chan := publish (topic (promptId e)) ''content_change''
                     \<lparr>cd_content = content e, cd_title = Some (title e),
                      cd_description = Some newDescription, cd_timestamp = now\<rparr> (chan w)\<rparr>)"

definition handleManualSave :: "nat \<Rightarrow> world \<Rightarrow> world" where
  "handleManualSave now w =
     (let e = ed w
      in savePrompt (closure_of e) now (content e) (title e) (description e)
           (w\<lparr>ed := e\<lparr>saveTimeoutRef := None\<rparr>\<rparr>))"

definition restoreVersion :: "nat \<Rightarrow> prompt_version \<Rightarrow> world \<Rightarrow> world" where
  "restoreVersion now version w =
     (let e = ed w;
          t = or_default (pv_title version) [];
          d = or_default (pv_description version) [];
          w1 = w\<lparr>ed := e\<lparr>content := pv_content version, title := t, description := d\<rparr>,
                 chan := publish (topic (promptId e)) ''content_change''
                           \<lparr>cd_content = pv_content version, cd_title = Some t,
                            cd_description = Some d, cd_timestamp = now\<rparr> (chan w)\<rparr>
      in savePrompt (closure_of e) now (pv_content version) t d w1)"

subsection \<open>Opening and closing\<close>

text \<open>
  The body of the effect is the asynchronous function \<open>loadData\<close>. It calls the
  \<open>startRealtimeUpdates\<close> of the render that created the effect and drops the function
  that this call returns (line 246). \<open>loadData cu user now\<close> is one run in an effect
  created by a render whose \<^verbatim>\<open>currentUser\<close> is \<open>cu\<close>; \<open>user\<close> is what \<^verbatim>\<open>blink.auth.me()\<close>
  resolves to (a call that may reject like those to the store, and takes its turn in the
  same fault plan) and \<open>now\<close> the reading of the clock when the session id is made.
  \<open>loadPrompt\<close> is the part of the run that follows \<^verbatim>\<open>setCurrentUser(user)\<close>.
\<close>

definition loadPrompt :: "user option \<Rightarrow> user \<Rightarrow> nat \<Rightarrow> world \<Rightarrow> world" where
  "loadPrompt cu user now w =
     (case request (store w) of
        (False, b1) \<Rightarrow> w\<lparr>store := b1, ed := (ed w)\<lparr>isLoading := False\<rparr>\<rparr>
      | (True, b1) \<Rightarrow>
          (case take 1 (filter (\<lambda>p. p_id p = promptId (ed w)) (prompts b1)) of
             [] \<Rightarrow> w\<lparr>store := b1, ed := (ed w)\<lparr>closed := True, isLoading := False\<rparr>\<rparr>
           | promptItem # _ \<Rightarrow>
               (let e2 = (ed w)\<lparr>prompt := Some promptItem,
                                 content := p_content promptItem,
                                 title := p_title promptItem,
                                 description := or_default (p_description promptItem) []\<rparr>;
                    w3 = loadVersions (w\<lparr>store := b1, ed := e2\<rparr>);
                    (suffix, w4) = random_suffix w3;
                    sessionId = ''session_'' @ decimal now @ ''_'' @ suffix;
                    w5 = w4\<lparr>ed := (ed w4)\<lparr>currentSessionId := Some sessionId\<rparr>\<rparr>
                in case request (store w5) of
                     (False, b2) \<Rightarrow> w5\<lparr>store := b2, ed := (ed w5)\<lparr>isLoading := False\<rparr>\<rparr>
                   | (True, b2) \<Rightarrow>
                       (let row = \<lparr>ps_id = sessionId, ps_prompt_id = promptId (ed w),
                                   ps_user_id = u_id user, ps_cursor_position = 0,
                                   ps_selection_start = 0, ps_selection_end = 0,
                                   ps_user_color = getUserColor (u_id user),
                                   ps_last_seen = now\<rparr>;
                            w6 = w5\<lparr>store := b2\<lparr>prompt_sessions := prompt_sessions b2 @ [row]\<rparr>\<rparr>;
                            w7 = snd (startRealtimeUpdates cu w6)
                        in w7\<lparr>ed := (ed w7)\<lparr>isLoading := False\<rparr>\<rparr>))))"

definition loadData :: "user option \<Rightarrow> user \<Rightarrow> nat \<Rightarrow> world \<Rightarrow> world" where
  "loadData cu user now w =
     (case request (store w) of
        (False, b0) \<Rightarrow> w\<lparr>store := b0, ed := (ed w)\<lparr>isLoading := False\<rparr>\<rparr>
      | (True, b0) \<Rightarrow>
          loadPrompt cu user now
            (w\<lparr>store := b0, ed := (ed w)\<lparr>isLoading := True, currentUser := Some user\<rparr>\<rparr>))"

text \<open>
  The cleanup of the effect, run when the component unmounts. A rejected delete is
  caught (\<^verbatim>\<open>.catch(console.error)\<close>).
\<close>

definition cleanup :: "world \<Rightarrow> world" where
  "cleanup w =
     (let w1 = w\<lparr>ed := (ed w)\<lparr>saveTimeoutRef := None\<rparr>\<rparr>
      in case currentSessionId (ed w1) of
           None \<Rightarrow> w1
         | Some sid \<Rightarrow>
             (case request (store w1) of
                (False, b) \<Rightarrow> w1\<lparr>store := b\<rparr>
              | (True, b) \<Rightarrow>
                  w1\<lparr>store := b\<lparr>prompt_sessions :=
                                   filter (\<lambda>s. ps_id s \<noteq> sid) (prompt_sessions b)\<rparr>\<rparr>))"

text \<open>
  \<open>mount user t0 t1\<close> is what the effect does from the first render on. Its first run
  belongs to the render that the state \<open>w\<close> gives, with the \<^verbatim>\<open>currentUser\<close> of \<open>w\<close> (null
  in a new component). When \<^verbatim>\<open>setCurrentUser(user)\<close> changes the state the component
  renders again, \<open>startRealtimeUpdates\<close> is a new function (\<^verbatim>\<open>currentUser\<close> is in its
  dependency list) and, being in the dependency list of the effect (line 272), makes
  React run the cleanup of the effect and then the effect again, while the first run
  goes on. The second run sets the user it already has, so there is no third. The runs
  overlap in time; here the calls of the first, made at \<open>t0\<close>, are answered before those of
  the second, made at \<open>t1\<close>. The other dependencies of the effect do not change: the
  parent renders the editor once its own loading is over.
\<close>

definition mount :: "user \<Rightarrow> nat \<Rightarrow> nat \<Rightarrow> world \<Rightarrow> world" where
  "mount user t0 t1 w =
     (case request (store w) of
        (False, b0) \<Rightarrow> w\<lparr>store := b0, ed := (ed w)\<lparr>isLoading := False\<rparr>\<rparr>
      | (True, b0) \<Rightarrow>
          (let cu = currentUser (ed w);
               w1 = w\<lparr>store := b0, ed := (ed w)\<lparr>isLoading := True, currentUser := Some user\<rparr>\<rparr>
           in if cu = Some user then loadPrompt cu user t0 w1
              else loadData (Some user) user t1 (loadPrompt cu user t0 (cleanup w1))))"

subsection \<open>Time\<close>

text \<open>
  \<open>advance t\<close> lets the clock reach \<open>t\<close>: a pending timer that is due by then runs its
  callback, at the time it is due.
\<close>

definition advance :: "nat \<Rightarrow> world \<Rightarrow> world" where
  "advance t w =
     (case saveTimeoutRef (ed w) of
        None \<Rightarrow> w
      | Some tm \<Rightarrow>
          if tm_due tm \<le> t
          then savePrompt (tm_save tm) (tm_due tm) (tm_content tm) (tm_title tm) (tm_description tm)
                 (w\<lparr>ed := (ed w)\<lparr>saveTimeoutRef := None\<rparr>\<rparr>)
          else w)"

datatype event =
    ContentChange string
  | TitleChange string
  | DescriptionChange string
  | ManualSave
  | RestoreVersion prompt_version
  | Message message

fun handle :: "nat \<Rightarrow> event \<Rightarrow> world \<Rightarrow> world" where
  "handle now (ContentChange c) w = handleContentChange now c w"
| "handle now (TitleChange t) w = handleTitleChange now t w"
| "handle now (DescriptionChange d) w = handleDescriptionChange now d w"
| "handle now ManualSave w = handleManualSave now w"
| "handle now (RestoreVersion v) w = restoreVersion now v w"
| "handle now (Message m) w = onMessage m w"

text \<open>A run of the editor: the events in the order of their times, the clock moving in between.\<close>

fun run :: "(nat \<times> event) list \<Rightarrow> world \<Rightarrow> world" where
  "run [] w = w"
| "run ((t, ev) # evs) w = run evs (handle t ev (advance t w))"

text \<open>\<open>saves calls\<close>: \<open>savePrompt\<close> called once per entry, each call with the closure of the render then current.\<close>

fun saves :: "(nat \<times> string \<times> string \<times> string) list \<Rightarrow> world \<Rightarrow> world" where
  "saves [] w = w"
| "saves ((now, c, t, d) # calls) w = saves calls (savePrompt (closure_of (ed w)) now c t d w)"


subsection \<open>The timers of the host\<close>

text \<open>
  The host keeps the timers that are pending, each under the id that \<^verbatim>\<open>setTimeout\<close>
  gave it; \<^verbatim>\<open>clearTimeout\<close> removes the timer of an id. \<open>timeoutRef\<close> is
  \<^verbatim>\<open>saveTimeoutRef.current\<close>: the id of the last timer set, which stays there when the
  timer has fired or was cleared. \<open>clearSaveTimeout\<close> is
  \<^verbatim>\<open>if (saveTimeoutRef.current) clearTimeout(saveTimeoutRef.current)\<close>, the first step of
  the three edit handlers, of \<open>handleManualSave\<close> and of the cleanup; \<open>rearm\<close> is that
  step followed by \<^verbatim>\<open>saveTimeoutRef.current = setTimeout(...)\<close>, as in the edit handlers.
  The field \<open>saveTimeoutRef\<close> of the editor above is the \<open>slot\<close> of this state: the timer
  that the ref names, if it is pending. No other code sets or clears a timer, so the
  pending timers of an editor are at most the one the ref names (\<open>onlyRef\<close>).
\<close>

record host =
  pending :: "(nat \<times> timer) list"
  nextId :: nat
  timeoutRef :: "nat option"

definition setTimeout :: "timer \<Rightarrow> host \<Rightarrow> nat \<times> host" where
  "setTimeout tm h =
     (nextId h, h\<lparr>pending := pending h @ [(nextId h, tm)], nextId := Suc (nextId h)\<rparr>)"

definition clearTimeout :: "nat \<Rightarrow> host \<Rightarrow> host" where
  "clearTimeout i h = h\<lparr>pending := filter (\<lambda>x. fst x \<noteq> i) (pending h)\<rparr>"

definition clearSaveTimeout :: "host \<Rightarrow> host" where
  "clearSaveTimeout h = (case timeoutRef h of None \<Rightarrow> h | Some i \<Rightarrow> clearTimeout i h)"

definition rearm :: "timer \<Rightarrow> host \<Rightarrow> host" where
  "rearm tm h = (let (i, h1) = setTimeout tm (clearSaveTimeout h) in h1\<lparr>timeoutRef := Some i\<rparr>)"

definition slot :: "host \<Rightarrow> timer option" where
  "slot h = (case timeoutRef h of None \<Rightarrow> None | Some i \<Rightarrow> map_of (pending h) i)"

definition onlyRef :: "host \<Rightarrow> bool" where
  "onlyRef h = (\<forall>x \<in> set (pending h). timeoutRef h = Some (fst x))"

text \<open>
  What the handler of an event does to the timers of the host, with the state \<open>w\<close> of
  its render: the three edit handlers clear the timer of the ref and set a new one whose
  callback holds the new value of their field and the other two fields as they are;
  \<open>handleManualSave\<close> clears the timer of the ref; \<open>restoreVersion\<close> and the message
  handler call neither \<^verbatim>\<open>clearTimeout\<close> nor \<^verbatim>\<open>setTimeout\<close>.
\<close>

fun timers :: "nat \<Rightarrow> event \<Rightarrow> world \<Rightarrow> host \<Rightarrow> host" where
  "timers now (ContentChange c) w h = rearm (arm now c (title (ed w)) (description (ed w)) (ed w)) h"
| "timers now (TitleChange t) w h = rearm (arm now (content (ed w)) t (description (ed w)) (ed w)) h"
| "timers now (DescriptionChange d) w h = rearm (arm now (content (ed w)) (title (ed w)) d (ed w)) h"
| "timers now ManualSave w h = clearSaveTimeout h"
| "timers now (RestoreVersion v) w h = h"
| "timers now (Message m) w h = h"

fun isLocalEdit :: "event \<Rightarrow> bool" where
  "isLocalEdit (ContentChange _) = True"
| "isLocalEdit (TitleChange _) = True"
| "isLocalEdit (DescriptionChange _) = True"
| "isLocalEdit _ = False"

text \<open>
  Modelled from the spec: the realtime channel collaborator hands what user \<open>uid\<close>
  published to the other subscribers of the topic, as a message that carries \<open>uid\<close>.
\<close>

definition delivered :: "string \<Rightarrow> publication \<Rightarrow> message" where
  "delivered uid p = \<lparr>msg_type = pub_type p, msg_userId = uid, msg_data = pub_data p\<rparr>"

section \<open>Sample data\<close>

definition sample_user :: user where
  "sample_user = \<lparr>u_id = ''u1'', u_email = ''ann@example.com'', u_display_name = None\<rparr>"

definition other_user :: user where
  "other_user = \<lparr>u_id = ''u2'', u_email = ''bob@example.com'', u_display_name = Some ''Bob''\<rparr>"

definition sample_owner :: workspace_member where
  "sample_owner = \<lparr>wm_id = ''m1'', wm_workspaceId = ''w1'', wm_userId = ''u1'', wm_role = Owner\<rparr>"

definition sample_editor :: workspace_member where
  "sample_editor = \<lparr>wm_id = ''m2'', wm_workspaceId = ''w1'', wm_userId = ''u2'', wm_role = Editor\<rparr>"

definition sample_prompt :: prompt where
  "sample_prompt = \<lparr>p_id = ''p1'', p_title = ''Greeting'', p_content = ''Say hi'',
                     p_description = None, p_updated_at = 0\<rparr>"

definition sample_backend :: backend where
  "sample_backend = \<lparr>workspaceMembers = [sample_owner, sample_editor], workspaceInvitations = [],
                      prompts = [sample_prompt], prompt_versions = [], prompt_sessions = [],
                      faults = []\<rparr>"

definition solo_backend :: backend where
  "solo_backend = sample_backend\<lparr>workspaceMembers := [sample_owner]\<rparr>"

definition ready_editor :: editor where
  "ready_editor = \<lparr>promptId = ''p1'', prompt = Some sample_prompt, content = ''Say hi'',
                    title = ''Greeting'', description = [], versions = [],
                    currentUser = Some sample_user, isLoading = False, isSaving = False,
                    lastSaved = None, saveTimeoutRef = None, currentSessionId = None,
                    closed = False\<rparr>"

definition ready_world :: world where
  "ready_world = \<lparr>ed = ready_editor, store = sample_backend,
                   chan = \<lparr>published = [], subscriptions = []\<rparr>,
                   randoms = (\<lambda>_. ''k3x''), drawn = 0\<rparr>"

text \<open>The editor of the same prompt as the second user has it.\<close>

definition other_world :: world where
  "other_world = ready_world\<lparr>ed := ready_editor\<lparr>currentUser := Some other_user\<rparr>\<rparr>"

text \<open>The editor as it is mounted, before its effect has run.\<close>

definition mounted_world :: world where
  "mounted_world = ready_world\<lparr>ed := ready_editor\<lparr>prompt := None, content := [], title := [],
                                                   currentUser := None, isLoading := True\<rparr>\<rparr>"

definition first_version :: prompt_version where
  "first_version = newVersion ''p1'' [] sample_user 2000 ''k3x'' ''a'' ''Greeting'' []"

definition versioned_world :: world where
  "versioned_world = ready_world\<lparr>ed := ready_editor\<lparr>versions := [first_version]\<rparr>,
                                 store := sample_backend\<lparr>prompt_versions := [first_version]\<rparr>\<rparr>"

definition accepted_invitation :: workspace_invitation where
  "accepted_invitation = \<lparr>wi_id = ''i1'', wi_workspaceId = ''w1'',
                           wi_email = [98, 111, 98, 64, 120, 46, 105, 111],
                           wi_role = InviteEditor, wi_invitedBy = ''u1'', wi_expiresAt = 604800000,
                           wi_acceptedAt = Some 3600000, wi_createdAt = 0\<rparr>"

definition sample_panel :: members_panel where
  "sample_panel = \<lparr>mp_workspaceId = ''w1'', mp_userRole = Owner, mp_userId = ''u1'',
                    invitations = [], inviteEmail = [160, 67, 121, 64, 88, 46, 105, 111, 32],
                    inviteRole = InviteViewer,
                    inviteDialogOpen = True, inviting = False\<rparr>"

text \<open>A host with one timer pending, the one the ref names.\<close>

definition sample_host :: host where
  "sample_host = \<lparr>pending = [(4, arm 100 ''x'' ''Greeting'' [] ready_editor)], nextId = 5,
                   timeoutRef = Some 4\<rparr>"

text \<open>The case mapping on the letters \<open>A\<close> to \<open>Z\<close>, for sample addresses in ASCII.\<close>

definition ascii_lower :: "text16 \<Rightarrow> text16" where
  "ascii_lower s = map (\<lambda>c. if 65 \<le> c \<and> c \<le> 90 then c + 32 else c) s"

text \<open>
  The offset of local time in the zone Europe/Berlin during 2024: one hour, and two hours
  from 31 March 01:00 UTC (02:00 on the local clock) to 27 October 01:00 UTC (03:00 on
  the local clock).
\<close>

definition berlin_2024 :: "int \<Rightarrow> bool \<Rightarrow> int" where
  "berlin_2024 t isUTC =
     (if isUTC then (if 1711846800000 \<le> t \<and> t < 1729990800000 then 7200000 else 3600000)
      else (if 1711850400000 \<le> t \<and> t < 1729998000000 then 7200000 else 3600000))"

section \<open>Properties of the access control\<close>

lemma request_tables:
  "request b = (ok, b') \<Longrightarrow>
     workspaceMembers b' = workspaceMembers b \<and> workspaceInvitations b' = workspaceInvitations b \<and>
     prompts b' = prompts b \<and> prompt_versions b' = prompt_versions b \<and>
     prompt_sessions b' = prompt_sessions b"
  by (auto simp: request_def split: list.splits)

lemma request_no_faults: "faults b = [] \<Longrightarrow> request b = (True, b)"
  by (simp add: request_def)

lemma request_ok:
  "True \<notin> set (faults b) \<Longrightarrow> request b = (ok, b') \<Longrightarrow> ok \<and> True \<notin> set (faults b')"
  by (auto simp: request_def split: list.splits)

lemma members_of_request: "request b = (ok, b') \<Longrightarrow> members_of w u b' = members_of w u b"
  by (simp add: members_of_def request_tables)

lemma owners_of_request: "request b = (ok, b') \<Longrightarrow> owners_of w b' = owners_of w b"
  by (simp add: owners_of_def request_tables)

lemma members_of_Cons:
  assumes "members_of w u b = m # ms"
  shows "m \<in> set (workspaceMembers b) \<and> wm_workspaceId m = w \<and> wm_userId m = u"
proof -
  have "m \<in> set (members_of w u b)" using assms by simp
  then show ?thesis by (simp add: members_of_def)
qed

lemma checkWorkspaceAccess_members:
  "checkWorkspaceAccess w u b = (r, b') \<Longrightarrow> workspaceMembers b' = workspaceMembers b"
  by (auto simp: checkWorkspaceAccess_def split: prod.splits bool.splits list.splits
      dest!: request_tables)

lemma checkWorkspaceAccess_Inr:
  "checkWorkspaceAccess w u b = (Inr r, b') \<Longrightarrow>
     \<exists>m ms. members_of w u b = m # ms \<and> wm_role m = r"
  by (auto simp: checkWorkspaceAccess_def members_of_request
      split: prod.splits bool.splits list.splits)


lemma lastOwnerCheck_members:
  "lastOwnerCheck w u q r b = (x, b') \<Longrightarrow> workspaceMembers b' = workspaceMembers b"
  by (auto simp: lastOwnerCheck_def split: prod.splits bool.splits if_splits dest!: request_tables)

lemma lastOwnerCheck_Inr:
  "lastOwnerCheck w u q r b = (Inr x, b') \<Longrightarrow> q = u \<Longrightarrow> r = Owner \<Longrightarrow>
     2 \<le> length (owners_of w b)"
  by (auto simp: lastOwnerCheck_def owners_of_request split: prod.splits bool.splits if_splits)

lemma deleteMember_Inl:
  "deleteMember w u b = (Inl e, b') \<Longrightarrow> workspaceMembers b' = workspaceMembers b"
  by (auto simp: deleteMember_def split: prod.splits bool.splits list.splits dest!: request_tables)

lemma deleteMember_Inr:
  "deleteMember w u b = (Inr x, b') \<Longrightarrow>
     (members_of w u b = [] \<and> workspaceMembers b' = workspaceMembers b) \<or>
     (\<exists>m ms. members_of w u b = m # ms \<and>
        workspaceMembers b' = filter (\<lambda>x. wm_id x \<noteq> wm_id m) (workspaceMembers b))"
  by (auto simp: deleteMember_def members_of_request split: prod.splits bool.splits list.splits
      dest!: request_tables)


lemma removeWorkspaceMember_Inl:
  "removeWorkspaceMember w u q b = (Inl e, b') \<Longrightarrow> workspaceMembers b' = workspaceMembers b"
  by (auto simp: removeWorkspaceMember_def split: prod.splits sum.splits if_splits
      dest!: checkWorkspaceAccess_members lastOwnerCheck_members deleteMember_Inl)

lemma removeWorkspaceMember_Inr:
  assumes "removeWorkspaceMember w t q b = (Inr x, b')"
  obtains r b1 b2 where "checkWorkspaceAccess w q b = (Inr r, b1)" "r = Owner \<or> q = t"
    "lastOwnerCheck w t q r b1 = (Inr (), b2)" "deleteMember w t b2 = (Inr x, b')"
  using assms
  by (auto simp: removeWorkspaceMember_def split: prod.splits sum.splits if_splits)

lemma owner_row: "owners_of w b = [m] \<Longrightarrow> wm_role m = Owner"
  unfolding owners_of_def by (metis (mono_tags, lifting) filter_eq_Cons_iff)

lemma sole_owner_fails:
  assumes "owners_of w b = [m]" "members_of w u b = [m]"
  shows "\<exists>e. fst (removeWorkspaceMember w u u b) = Inl e"
  using assms owner_row [OF assms(1)]
  by (auto simp: removeWorkspaceMember_def checkWorkspaceAccess_def lastOwnerCheck_def
        members_of_request owners_of_request
      split: prod.splits sum.splits bool.splits list.splits if_splits)

lemma sole_owner_error:
  assumes "owners_of w b = [m]" "members_of w u b = [m]" "True \<notin> set (faults b)"
  shows "fst (removeWorkspaceMember w u u b) =
           Inl (WorkspaceAccessError ''Cannot remove the last owner from workspace'' FORBIDDEN)"
proof -
  obtain ok1 b1 where q1: "request b = (ok1, b1)" by (cases "request b")
  obtain ok2 b2 where q2: "request b1 = (ok2, b2)" by (cases "request b1")
  from request_ok [OF assms(3) q1] have o1: "ok1" and f1: "True \<notin> set (faults b1)" by simp_all
  from request_ok [OF f1 q2] have o2: "ok2" by simp
  show ?thesis
    using assms(1,2) owner_row [OF assms(1)] q1 q2 o1 o2
    by (simp add: removeWorkspaceMember_def checkWorkspaceAccess_def lastOwnerCheck_def
          members_of_request owners_of_request)
qed

lemma distinct_ids_neq:
  "distinct (map wm_id xs) \<Longrightarrow> x \<in> set xs \<Longrightarrow> y \<in> set xs \<Longrightarrow> x \<noteq> y \<Longrightarrow> wm_id x \<noteq> wm_id y"
  by (meson distinct_map inj_onD)

lemma two_distinct_other:
  "distinct xs \<Longrightarrow> 2 \<le> length xs \<Longrightarrow> \<exists>y \<in> set xs. y \<noteq> x"
  by (cases xs; cases "tl xs") auto

lemma owner_survives:
  assumes d: "distinct (map wm_id (workspaceMembers b))"
    and rm: "removeWorkspaceMember w t q b = (Inr x, b')"
    and ow: "owners_of w' b \<noteq> []"
  shows "owners_of w' b' \<noteq> []"
proof -
  from rm obtain r b1 b2 where c: "checkWorkspaceAccess w q b = (Inr r, b1)"
    and perm: "r = Owner \<or> q = t"
    and lo: "lastOwnerCheck w t q r b1 = (Inr (), b2)"
    and del: "deleteMember w t b2 = (Inr x, b')"
    by (rule removeWorkspaceMember_Inr)
  have m1: "workspaceMembers b1 = workspaceMembers b"
    using c by (rule checkWorkspaceAccess_members)
  have m2: "workspaceMembers b2 = workspaceMembers b"
    using lo m1 by (simp add: lastOwnerCheck_members)
  have mo2: "members_of w t b2 = members_of w t b" by (simp add: members_of_def m2)
  have ow1: "owners_of w b1 = owners_of w b" by (simp add: owners_of_def m1)
  obtain z where z: "z \<in> set (workspaceMembers b)" "wm_workspaceId z = w'" "wm_role z = Owner"
  proof -
    from ow obtain z where "z \<in> set (owners_of w' b)" by (cases "owners_of w' b") auto
    then show ?thesis using that by (auto simp: owners_of_def)
  qed
  from deleteMember_Inr [OF del] show ?thesis
  proof (elim disjE conjE exE)
    assume "workspaceMembers b' = workspaceMembers b2"
    then show ?thesis using ow m2 by (simp add: owners_of_def)
  next
    fix m ms
    assume tm: "members_of w t b2 = m # ms"
      and b': "workspaceMembers b' = filter (\<lambda>x. wm_id x \<noteq> wm_id m) (workspaceMembers b2)"
    from tm mo2 have m: "m \<in> set (workspaceMembers b)" "wm_workspaceId m = w" "wm_userId m = t"
      by (simp_all add: members_of_Cons)
    have keep: "\<exists>y \<in> set (workspaceMembers b). wm_workspaceId y = w' \<and> wm_role y = Owner \<and> y \<noteq> m"
    proof (cases "z = m")
      case False
      with z show ?thesis by blast
    next
      case True
      with z m have w': "w' = w" and mr: "wm_role m = Owner" by simp_all
      from checkWorkspaceAccess_Inr [OF c] obtain mq mqs
        where mq: "members_of w q b = mq # mqs" "wm_role mq = r" by blast
      show ?thesis
      proof (cases "q = t")
        case True
        with mq tm mo2 have "r = Owner" using mr by simp
        with lo True have "2 \<le> length (owners_of w b1)" by (auto dest: lastOwnerCheck_Inr)
        moreover have "distinct (owners_of w b)"
          using d by (simp add: owners_of_def distinct_map)
        ultimately obtain y where "y \<in> set (owners_of w b)" "y \<noteq> m"
          using two_distinct_other [of "owners_of w b" m] ow1 by auto
        then show ?thesis using w' by (auto simp: owners_of_def)
      next
        case False
        with perm have "r = Owner" by simp
        moreover from mq have "mq \<in> set (workspaceMembers b)" "wm_workspaceId mq = w"
          "wm_userId mq = q"
          by (simp_all add: members_of_Cons)
        ultimately show ?thesis using mq(2) False m(3) w' by auto
      qed
    qed
    then obtain y where y: "y \<in> set (workspaceMembers b)" "wm_workspaceId y = w'"
      "wm_role y = Owner" "y \<noteq> m"
      by blast
    with d m(1) have "wm_id y \<noteq> wm_id m" by (simp add: distinct_ids_neq)
    with y b' m2 have "y \<in> set (owners_of w' b')" by (simp add: owners_of_def)
    then show ?thesis by auto
  qed
qed

text \<open>
  C4. \<open>canPerformAction\<close> is a total function of the role and the action: every role may
  read, the owner and the editor may write, and only the owner may administer.
\<close>

theorem canPerformAction_table:
  "canPerformAction r Read \<and>
   (canPerformAction r Write \<longleftrightarrow> r = Owner \<or> r = Editor) \<and>
   (canPerformAction r Admin \<longleftrightarrow> r = Owner)"
  by (cases r) simp_all

text \<open>
  C5. In a workspace with exactly one owner row, that owner removing themself gets an
  error and no membership row is deleted; the error is the one about the last owner
  whenever the store answers. After any remove that succeeds, a workspace that had an
  owner still has one (rows have distinct ids).
\<close>

theorem removeWorkspaceMember_last_owner:
  "(owners_of w b = [m] \<and> members_of w u b = [m] \<longrightarrow>
      (\<exists>e. fst (removeWorkspaceMember w u u b) = Inl e) \<and>
      workspaceMembers (snd (removeWorkspaceMember w u u b)) = workspaceMembers b \<and>
      (True \<notin> set (faults b) \<longrightarrow>
         fst (removeWorkspaceMember w u u b) =
           Inl (WorkspaceAccessError ''Cannot remove the last owner from workspace'' FORBIDDEN))) \<and>
   (distinct (map wm_id (workspaceMembers b)) \<and>
    removeWorkspaceMember w t q b = (Inr x, b') \<and> owners_of w' b \<noteq> [] \<longrightarrow>
      owners_of w' b' \<noteq> [])"
proof (intro conjI impI; (elim conjE)?)
  assume a: "owners_of w b = [m]" "members_of w u b = [m]"
  from sole_owner_fails [OF a] obtain e b1
    where r: "removeWorkspaceMember w u u b = (Inl e, b1)"
    by (cases "removeWorkspaceMember w u u b") auto
  show "\<exists>e. fst (removeWorkspaceMember w u u b) = Inl e" using r by simp
  show "workspaceMembers (snd (removeWorkspaceMember w u u b)) = workspaceMembers b"
    using removeWorkspaceMember_Inl [OF r] r by simp
  assume "True \<notin> set (faults b)"
  with a show "fst (removeWorkspaceMember w u u b) =
      Inl (WorkspaceAccessError ''Cannot remove the last owner from workspace'' FORBIDDEN)"
    by (rule sole_owner_error)
next
  assume "distinct (map wm_id (workspaceMembers b))"
    "removeWorkspaceMember w t q b = (Inr x, b')" "owners_of w' b \<noteq> []"
  then show "owners_of w' b' \<noteq> []" by (rule owner_survives)
qed

theorem removeWorkspaceMember_last_owner_witness:
  "owners_of ''w1'' solo_backend = [sample_owner] \<and>
   members_of ''w1'' ''u1'' solo_backend = [sample_owner] \<and>
   True \<notin> set (faults solo_backend) \<and>
   fst (removeWorkspaceMember ''w1'' ''u1'' ''u1'' solo_backend) =
     Inl (WorkspaceAccessError ''Cannot remove the last owner from workspace'' FORBIDDEN) \<and>
   workspaceMembers (snd (removeWorkspaceMember ''w1'' ''u1'' ''u1'' solo_backend)) = [sample_owner] \<and>
   distinct (map wm_id (workspaceMembers sample_backend)) \<and>
   removeWorkspaceMember ''w1'' ''u2'' ''u1'' sample_backend = (Inr (), solo_backend) \<and>
   owners_of ''w1'' sample_backend \<noteq> [] \<and> owners_of ''w1'' solo_backend \<noteq> []"
proof -
  have h1: "owners_of ''w1'' solo_backend = [sample_owner] \<and>
            members_of ''w1'' ''u1'' solo_backend = [sample_owner]"
    by (simp add: owners_of_def members_of_def solo_backend_def sample_backend_def sample_owner_def)
  have h2: "True \<notin> set (faults solo_backend)"
    by (simp add: solo_backend_def sample_backend_def)
  have h3: "distinct (map wm_id (workspaceMembers sample_backend)) \<and>
            removeWorkspaceMember ''w1'' ''u2'' ''u1'' sample_backend = (Inr (), solo_backend) \<and>
            owners_of ''w1'' sample_backend \<noteq> []"
    by (simp add: removeWorkspaceMember_def checkWorkspaceAccess_def lastOwnerCheck_def
          deleteMember_def request_def owners_of_def members_of_def solo_backend_def
          sample_backend_def sample_owner_def sample_editor_def)
  from removeWorkspaceMember_last_owner
         [where w = "''w1''" and b = solo_backend and m = sample_owner and u = "''u1''"] h1 h2
  have c1: "fst (removeWorkspaceMember ''w1'' ''u1'' ''u1'' solo_backend) =
      Inl (WorkspaceAccessError ''Cannot remove the last owner from workspace'' FORBIDDEN) \<and>
    workspaceMembers (snd (removeWorkspaceMember ''w1'' ''u1'' ''u1'' solo_backend)) =
      workspaceMembers solo_backend"
    by blast
  from removeWorkspaceMember_last_owner
         [where w = "''w1''" and b = sample_backend and t = "''u2''" and q = "''u1''"
            and b' = solo_backend and w' = "''w1''"] h3
  have c2: "owners_of ''w1'' solo_backend \<noteq> []"
    by blast
  from h1 h2 h3 c1 c2 show ?thesis by (simp add: solo_backend_def)
qed




section \<open>Properties of the version log\<close>

lemma fold_max_Max: "fold max xs (a::int) = Max (insert a (set xs))"
  using Max.set_eq_fold [of a xs] by simp

lemma Max_take_sorted_desc:
  fixes f :: "'a \<Rightarrow> int"
  shows "Max (insert 0 (f ` set (take (Suc n) (sort_key (\<lambda>v. - f v) xs)))) = Max (insert 0 (f ` set xs))"
proof (cases "sort_key (\<lambda>v. - f v) xs")
  case Nil
  then have "xs = []" by (metis length_sort list.size(3) length_0_conv)
  then show ?thesis by simp
next
  case (Cons y ys)
  let ?s = "sort_key (\<lambda>v. - f v) xs"
  have srt: "sorted (map (\<lambda>v. - f v) ?s)" by (rule sorted_sort_key)
  have st: "set ?s = set xs" by simp
  have top: "\<forall>z \<in> set xs. f z \<le> f y"
    using srt st unfolding Cons by auto
  have yin: "y \<in> set (take (Suc n) ?s)" unfolding Cons by simp
  have sub: "set (take (Suc n) ?s) \<subseteq> set xs" using set_take_subset [of "Suc n" ?s] st by simp
  show ?thesis
  proof (rule antisym)
    show "Max (insert 0 (f ` set (take (Suc n) ?s))) \<le> Max (insert 0 (f ` set xs))"
      by (rule Max_mono) (use sub in auto)
    show "Max (insert 0 (f ` set xs)) \<le> Max (insert 0 (f ` set (take (Suc n) ?s)))"
    proof (rule Max.boundedI)
      fix a assume "a \<in> insert 0 (f ` set xs)"
      then consider "a = 0" | z where "z \<in> set xs" "a = f z" by auto
      then show "a \<le> Max (insert 0 (f ` set (take (Suc n) ?s)))"
      proof cases
        case 1 then show ?thesis by simp
      next
        case 2
        then have "a \<le> f y" using top by simp
        also have "f y \<le> Max (insert 0 (f ` set (take (Suc n) ?s)))"
          using yin by (intro Max_ge) auto
        finally show ?thesis .
      qed
    qed auto
  qed
qed

lemma nextVersionNumber_latest:
  "nextVersionNumber (latestVersions pid b) =
     Max (insert 0 (pv_version_number ` set (versions_of pid b))) + 1"
proof -
  have "(20::nat) = Suc 19" by simp
  then show ?thesis
    unfolding nextVersionNumber_def latestVersions_def fold_max_Max
    by (simp only: set_map Max_take_sorted_desc)
qed

lemma loadVersions_tables:
  "prompt_versions (store (loadVersions w)) = prompt_versions (store w)"
  "prompts (store (loadVersions w)) = prompts (store w)"
  by (auto simp: loadVersions_def split: prod.splits bool.splits dest!: request_tables)

lemma savePrompt_ok:
  assumes "sc_prompt cl = Some p" "sc_currentUser cl = Some u" "faults (store w) = []"
  shows "savePrompt cl now c t d w =
     (let b = (store w)\<lparr>prompts := updatedPrompts (promptId (ed w)) now c t d (prompts (store w)),
                        prompt_versions := prompt_versions (store w) @
                          [newVersion (promptId (ed w)) (sc_versions cl) u now (randoms w (drawn w)) c t d]\<rparr>
      in w\<lparr>store := b, drawn := Suc (drawn w),
           ed := (ed w)\<lparr>lastSaved := Some now, versions := latestVersions (promptId (ed w)) b, isSaving := False\<rparr>\<rparr>)"
  using assms
  by (simp add: savePrompt_def request_no_faults random_suffix_def loadVersions_def Let_def)

lemma savePrompt_versions_grow:
  "\<exists>new. prompt_versions (store (savePrompt cl now c t d w)) = prompt_versions (store w) @ new"
  by (auto simp: savePrompt_def random_suffix_def Let_def loadVersions_tables
      split: prod.splits bool.splits option.splits dest!: request_tables)

lemma savePrompt_ok_fields:
  assumes "sc_prompt cl = Some p" "sc_currentUser cl = Some u" "faults (store w) = []"
  shows "prompt_versions (store (savePrompt cl now c t d w)) =
           prompt_versions (store w) @
             [newVersion (promptId (ed w)) (sc_versions cl) u now (randoms w (drawn w)) c t d]"
    and "prompts (store (savePrompt cl now c t d w)) =
           updatedPrompts (promptId (ed w)) now c t d (prompts (store w))"
    and "faults (store (savePrompt cl now c t d w)) = []"
    and "promptId (ed (savePrompt cl now c t d w)) = promptId (ed w)"
    and "prompt (ed (savePrompt cl now c t d w)) = prompt (ed w)"
    and "currentUser (ed (savePrompt cl now c t d w)) = currentUser (ed w)"
    and "versions (ed (savePrompt cl now c t d w)) =
           latestVersions (promptId (ed w)) (store (savePrompt cl now c t d w))"
    and "saveTimeoutRef (ed (savePrompt cl now c t d w)) = saveTimeoutRef (ed w)"
    and "content (ed (savePrompt cl now c t d w)) = content (ed w)"
    and "title (ed (savePrompt cl now c t d w)) = title (ed w)"
    and "description (ed (savePrompt cl now c t d w)) = description (ed w)"
    and "lastSaved (ed (savePrompt cl now c t d w)) = Some now"
  using assms(3) unfolding savePrompt_ok [OF assms] Let_def by simp_all

lemma restoreVersion_save:
  "restoreVersion now K w =
     savePrompt (closure_of (ed w)) now (pv_content K) (or_default (pv_title K) [])
       (or_default (pv_description K) [])
       (w\<lparr>ed := (ed w)\<lparr>content := pv_content K, title := or_default (pv_title K) [],
                         description := or_default (pv_description K) []\<rparr>,
          chan := publish (topic (promptId (ed w))) ''content_change''
                    \<lparr>cd_content = pv_content K, cd_title = Some (or_default (pv_title K) []),
                     cd_description = Some (or_default (pv_description K) []),
                     cd_timestamp = now\<rparr> (chan w)\<rparr>)"
  unfolding restoreVersion_def Let_def ..

lemma updatedPrompts_row:
  assumes "q \<in> set (updatedPrompts pid now c t d ps)" "p_id q = pid"
  shows "p_content q = c \<and> p_title q = t \<and> p_description q = Some d \<and> p_updated_at q = now"
proof -
  from assms(1) obtain p where "p \<in> set ps"
    and q: "q = (if p_id p = pid
               then p\<lparr>p_content := c, p_title := t, p_description := Some d, p_updated_at := now\<rparr>
               else p)"
    unfolding updatedPrompts_def set_map by blast
  show ?thesis
  proof (cases "p_id p = pid")
    case True
    then show ?thesis using q by simp
  next
    case False
    then show ?thesis using q assms(2) by simp
  qed
qed

lemma restoreVersion_grow:
  "\<exists>new. prompt_versions (store (restoreVersion now K w)) = prompt_versions (store w) @ new"
proof -
  let ?w1 = "w\<lparr>ed := (ed w)\<lparr>content := pv_content K, title := or_default (pv_title K) [],
                         description := or_default (pv_description K) []\<rparr>,
          chan := publish (topic (promptId (ed w))) ''content_change''
                    \<lparr>cd_content = pv_content K, cd_title = Some (or_default (pv_title K) []),
                     cd_description = Some (or_default (pv_description K) []),
                     cd_timestamp = now\<rparr> (chan w)\<rparr>"
  have s: "store ?w1 = store w" by simp
  from savePrompt_versions_grow [of "closure_of (ed w)" now "pv_content K" _ _ ?w1]
  show ?thesis unfolding restoreVersion_save s .
qed

lemma restoreVersion_ok:
  assumes "prompt (ed w) = Some p" "currentUser (ed w) = Some u" "faults (store w) = []"
  shows "prompt_versions (store (restoreVersion now K w)) =
           prompt_versions (store w) @
             [newVersion (promptId (ed w)) (versions (ed w)) u now (randoms w (drawn w))
                (pv_content K) (or_default (pv_title K) []) (or_default (pv_description K) [])]"
    and "prompts (store (restoreVersion now K w)) =
           updatedPrompts (promptId (ed w)) now (pv_content K) (or_default (pv_title K) [])
             (or_default (pv_description K) []) (prompts (store w))"
    and "content (ed (restoreVersion now K w)) = pv_content K"
    and "title (ed (restoreVersion now K w)) = or_default (pv_title K) []"
    and "description (ed (restoreVersion now K w)) = or_default (pv_description K) []"
proof -
  let ?cl = "closure_of (ed w)"
  let ?t = "or_default (pv_title K) []" and ?d = "or_default (pv_description K) []"
  let ?w1 = "w\<lparr>ed := (ed w)\<lparr>content := pv_content K, title := ?t, description := ?d\<rparr>,
               chan := publish (topic (promptId (ed w))) ''content_change''
                         \<lparr>cd_content = pv_content K, cd_title = Some ?t,
                          cd_description = Some ?d, cd_timestamp = now\<rparr> (chan w)\<rparr>"
  have cl: "sc_prompt ?cl = Some p" "sc_currentUser ?cl = Some u" "sc_versions ?cl = versions (ed w)"
    using assms by (simp_all add: closure_of_def)
  have f: "faults (store ?w1) = []" using assms(3) by simp
  note sp = savePrompt_ok_fields [OF cl(1,2) f, of now "pv_content K" ?t ?d]
  show "prompt_versions (store (restoreVersion now K w)) =
           prompt_versions (store w) @
             [newVersion (promptId (ed w)) (versions (ed w)) u now (randoms w (drawn w))
                (pv_content K) ?t ?d]"
    unfolding restoreVersion_save sp(1) by (simp add: cl(3))
  show "prompts (store (restoreVersion now K w)) =
           updatedPrompts (promptId (ed w)) now (pv_content K) ?t ?d (prompts (store w))"
    unfolding restoreVersion_save sp(2) by simp
  show "content (ed (restoreVersion now K w)) = pv_content K"
    unfolding restoreVersion_save sp(9) by simp
  show "title (ed (restoreVersion now K w)) = ?t"
    unfolding restoreVersion_save sp(10) by simp
  show "description (ed (restoreVersion now K w)) = ?d"
    unfolding restoreVersion_save sp(11) by simp
qed

section \<open>Properties of the save timer\<close>

lemma edit_effect:
  assumes "isLocalEdit ev"
  shows "store (handle now ev w) = store w"
    and "\<exists>tm. saveTimeoutRef (ed (handle now ev w)) = Some tm \<and> tm_due tm = now + 2000 \<and>
           tm_content tm = content (ed (handle now ev w)) \<and>
           tm_title tm = title (ed (handle now ev w)) \<and>
           tm_description tm = description (ed (handle now ev w)) \<and>
           tm_save tm = closure_of (ed w)"
    and "closure_of (ed (handle now ev w)) = closure_of (ed w)"
    and "promptId (ed (handle now ev w)) = promptId (ed w)"
    and "randoms (handle now ev w) = randoms w"
    and "drawn (handle now ev w) = drawn w"
  using assms
  by (cases ev; simp add: handleContentChange_def handleTitleChange_def
        handleDescriptionChange_def arm_def closure_of_def Let_def)+

lemma advance_idle:
  "saveTimeoutRef (ed w) = None \<Longrightarrow> advance t w = w"
  "saveTimeoutRef (ed w) = Some tm \<Longrightarrow> t < tm_due tm \<Longrightarrow> advance t w = w"
  by (simp_all add: advance_def)

lemma advance_fire:
  "saveTimeoutRef (ed w) = Some tm \<Longrightarrow> tm_due tm \<le> t \<Longrightarrow>
     advance t w = savePrompt (tm_save tm) (tm_due tm) (tm_content tm) (tm_title tm)
                     (tm_description tm) (w\<lparr>ed := (ed w)\<lparr>saveTimeoutRef := None\<rparr>\<rparr>)"
  by (simp add: advance_def)

lemma three_edits:
  assumes e: "isLocalEdit e1" "isLocalEdit e2" "isLocalEdit e3"
    and n: "saveTimeoutRef (ed w) = None"
  shows "store (run [(t0, e1), (t0 + 500, e2), (t0 + 1000, e3)] w) = store w"
    and "\<exists>tm. saveTimeoutRef (ed (run [(t0, e1), (t0 + 500, e2), (t0 + 1000, e3)] w)) = Some tm \<and>
           tm_due tm = t0 + 3000 \<and>
           tm_content tm = content (ed (run [(t0, e1), (t0 + 500, e2), (t0 + 1000, e3)] w)) \<and>
           tm_title tm = title (ed (run [(t0, e1), (t0 + 500, e2), (t0 + 1000, e3)] w)) \<and>
           tm_description tm = description (ed (run [(t0, e1), (t0 + 500, e2), (t0 + 1000, e3)] w)) \<and>
           tm_save tm = closure_of (ed w)"
    and "closure_of (ed (run [(t0, e1), (t0 + 500, e2), (t0 + 1000, e3)] w)) = closure_of (ed w)"
    and "promptId (ed (run [(t0, e1), (t0 + 500, e2), (t0 + 1000, e3)] w)) = promptId (ed w)"
    and "randoms (run [(t0, e1), (t0 + 500, e2), (t0 + 1000, e3)] w) = randoms w"
    and "drawn (run [(t0, e1), (t0 + 500, e2), (t0 + 1000, e3)] w) = drawn w"
proof -
  let ?w1 = "handle t0 e1 w"
  let ?w2 = "handle (t0 + 500) e2 ?w1"
  let ?w3 = "handle (t0 + 1000) e3 ?w2"
  note a1 = edit_effect [OF e(1), of t0 w]
  note a2 = edit_effect [OF e(2), of "t0 + 500" ?w1]
  note a3 = edit_effect [OF e(3), of "t0 + 1000" ?w2]
  have s1: "advance t0 w = w" using n by (rule advance_idle)
  from a1(2) obtain tm1 where "saveTimeoutRef (ed ?w1) = Some tm1" "tm_due tm1 = t0 + 2000" by blast
  then have s2: "advance (t0 + 500) ?w1 = ?w1" by (simp add: advance_idle)
  from a2(2) obtain tm2 where "saveTimeoutRef (ed ?w2) = Some tm2" "tm_due tm2 = t0 + 500 + 2000" by blast
  then have s3: "advance (t0 + 1000) ?w2 = ?w2" by (simp add: advance_idle)
  have r: "run [(t0, e1), (t0 + 500, e2), (t0 + 1000, e3)] w = ?w3"
    by (simp add: s1 s2 s3)
  show "store (run [(t0, e1), (t0 + 500, e2), (t0 + 1000, e3)] w) = store w"
    unfolding r a3(1) a2(1) a1(1) ..
  show "closure_of (ed (run [(t0, e1), (t0 + 500, e2), (t0 + 1000, e3)] w)) = closure_of (ed w)"
    unfolding r a3(3) a2(3) a1(3) ..
  show "promptId (ed (run [(t0, e1), (t0 + 500, e2), (t0 + 1000, e3)] w)) = promptId (ed w)"
    unfolding r a3(4) a2(4) a1(4) ..
  show "randoms (run [(t0, e1), (t0 + 500, e2), (t0 + 1000, e3)] w) = randoms w"
    unfolding r a3(5) a2(5) a1(5) ..
  show "drawn (run [(t0, e1), (t0 + 500, e2), (t0 + 1000, e3)] w) = drawn w"
    unfolding r a3(6) a2(6) a1(6) ..
  from a3(2) obtain tm where tm: "saveTimeoutRef (ed ?w3) = Some tm" "tm_due tm = t0 + 1000 + 2000"
    "tm_content tm = content (ed ?w3)" "tm_title tm = title (ed ?w3)"
    "tm_description tm = description (ed ?w3)" "tm_save tm = closure_of (ed ?w2)" by blast
  have "tm_save tm = closure_of (ed w)" unfolding tm(6) a2(3) a1(3) ..
  moreover have "tm_due tm = t0 + 3000" using tm(2) by simp
  ultimately show "\<exists>tm. saveTimeoutRef (ed (run [(t0, e1), (t0 + 500, e2), (t0 + 1000, e3)] w)) = Some tm \<and>
           tm_due tm = t0 + 3000 \<and>
           tm_content tm = content (ed (run [(t0, e1), (t0 + 500, e2), (t0 + 1000, e3)] w)) \<and>
           tm_title tm = title (ed (run [(t0, e1), (t0 + 500, e2), (t0 + 1000, e3)] w)) \<and>
           tm_description tm = description (ed (run [(t0, e1), (t0 + 500, e2), (t0 + 1000, e3)] w)) \<and>
           tm_save tm = closure_of (ed w)"
    unfolding r using tm(1,3,4,5) by blast
qed

lemma closure_of_fields:
  "sc_prompt (closure_of e) = prompt e" "sc_currentUser (closure_of e) = currentUser e"
  "sc_versions (closure_of e) = versions e"
  by (simp_all add: closure_of_def)

lemma timer_fires:
  assumes r: "prompt (ed w) = Some p" "currentUser (ed w) = Some u" "faults (store w) = []"
    and tm: "saveTimeoutRef (ed w3) = Some tm" "tm_due tm \<le> T" "tm_save tm = closure_of (ed w)"
    and same: "store w3 = store w" "promptId (ed w3) = promptId (ed w)"
      "randoms w3 = randoms w" "drawn w3 = drawn w"
  shows "prompt_versions (store (advance T w3)) =
           prompt_versions (store w) @
             [newVersion (promptId (ed w)) (versions (ed w)) u (tm_due tm) (randoms w (drawn w))
                (tm_content tm) (tm_title tm) (tm_description tm)]"
    and "saveTimeoutRef (ed (advance T w3)) = None"
proof -
  let ?w = "w3\<lparr>ed := (ed w3)\<lparr>saveTimeoutRef := None\<rparr>\<rparr>"
  have a: "advance T w3 = savePrompt (tm_save tm) (tm_due tm) (tm_content tm) (tm_title tm)
                     (tm_description tm) ?w"
    using tm(1,2) by (rule advance_fire)
  have cl: "sc_prompt (tm_save tm) = Some p" "sc_currentUser (tm_save tm) = Some u"
    using r(1,2) by (simp_all add: tm(3) closure_of_fields)
  have f: "faults (store ?w) = []" using r(3) same(1) by simp
  note sp = savePrompt_ok_fields [OF cl f, of "tm_due tm" "tm_content tm" "tm_title tm" "tm_description tm"]
  show "prompt_versions (store (advance T w3)) =
           prompt_versions (store w) @
             [newVersion (promptId (ed w)) (versions (ed w)) u (tm_due tm) (randoms w (drawn w))
                (tm_content tm) (tm_title tm) (tm_description tm)]"
    unfolding a sp(1) using same by (simp add: tm(3) closure_of_fields)
  show "saveTimeoutRef (ed (advance T w3)) = None"
    unfolding a sp(8) by simp
qed

lemma manual_save:
  assumes r: "prompt (ed w) = Some p" "currentUser (ed w) = Some u" "faults (store w) = []"
  shows "prompt_versions (store (handleManualSave now w)) =
           prompt_versions (store w) @
             [newVersion (promptId (ed w)) (versions (ed w)) u now (randoms w (drawn w))
                (content (ed w)) (title (ed w)) (description (ed w))]"
    and "saveTimeoutRef (ed (handleManualSave now w)) = None"
proof -
  let ?w = "w\<lparr>ed := (ed w)\<lparr>saveTimeoutRef := None\<rparr>\<rparr>"
  have a: "handleManualSave now w =
      savePrompt (closure_of (ed w)) now (content (ed w)) (title (ed w)) (description (ed w)) ?w"
    unfolding handleManualSave_def Let_def ..
  have cl: "sc_prompt (closure_of (ed w)) = Some p" "sc_currentUser (closure_of (ed w)) = Some u"
    using r(1,2) by (simp_all add: closure_of_fields)
  have f: "faults (store ?w) = []" using r(3) by simp
  note sp = savePrompt_ok_fields [OF cl f, of now "content (ed w)" "title (ed w)" "description (ed w)"]
  show "prompt_versions (store (handleManualSave now w)) =
           prompt_versions (store w) @
             [newVersion (promptId (ed w)) (versions (ed w)) u now (randoms w (drawn w))
                (content (ed w)) (title (ed w)) (description (ed w))]"
    unfolding a sp(1) by (simp add: closure_of_fields)
  show "saveTimeoutRef (ed (handleManualSave now w)) = None"
    unfolding a sp(8) by simp
qed

lemma clearSaveTimeout_cancels:
  assumes "onlyRef h"
  shows "pending (clearSaveTimeout h) = []" and "slot (clearSaveTimeout h) = None"
proof -
  show p: "pending (clearSaveTimeout h) = []"
  proof (cases "timeoutRef h")
    case None
    with assms have "pending h = []" by (cases "pending h") (auto simp: onlyRef_def)
    with None show ?thesis by (simp add: clearSaveTimeout_def)
  next
    case (Some i)
    with assms have "\<forall>x \<in> set (pending h). fst x = i" by (simp add: onlyRef_def)
    then have "filter (\<lambda>x. fst x \<noteq> i) (pending h) = []" by (simp add: filter_empty_conv)
    with Some show ?thesis by (simp add: clearSaveTimeout_def clearTimeout_def)
  qed
  show "slot (clearSaveTimeout h) = None"
    by (simp add: slot_def p split: option.splits)
qed

lemma rearm_cancels:
  assumes "onlyRef h"
  shows "pending (rearm tm h) = [(nextId h, tm)]"
    and "timeoutRef (rearm tm h) = Some (nextId h)"
    and "slot (rearm tm h) = Some tm"
    and "onlyRef (rearm tm h)"
proof -
  have c: "pending (clearSaveTimeout h) = []" using assms by (rule clearSaveTimeout_cancels)
  have n: "nextId (clearSaveTimeout h) = nextId h"
    by (simp add: clearSaveTimeout_def clearTimeout_def split: option.splits)
  show p: "pending (rearm tm h) = [(nextId h, tm)]"
    by (simp add: rearm_def setTimeout_def c n)
  show r: "timeoutRef (rearm tm h) = Some (nextId h)"
    by (simp add: rearm_def setTimeout_def c n)
  show "slot (rearm tm h) = Some tm" by (simp add: slot_def p r)
  show "onlyRef (rearm tm h)" by (simp add: onlyRef_def p r)
qed

lemma edit_timer:
  assumes "isLocalEdit ev"
  shows "saveTimeoutRef (ed (handle now ev w)) =
           Some \<lparr>tm_due = now + 2000, tm_content = content (ed (handle now ev w)),
                 tm_title = title (ed (handle now ev w)),
                 tm_description = description (ed (handle now ev w)),
                 tm_save = closure_of (ed w)\<rparr>"
  using assms
  by (cases ev; simp add: handleContentChange_def handleTitleChange_def
        handleDescriptionChange_def arm_def Let_def)

lemma loadVersions_timer: "saveTimeoutRef (ed (loadVersions w)) = saveTimeoutRef (ed w)"
  by (simp add: loadVersions_def split: prod.splits bool.splits)

lemma savePrompt_timer:
  "saveTimeoutRef (ed (savePrompt cl now c t d w)) = saveTimeoutRef (ed w)"
  by (simp add: savePrompt_def random_suffix_def loadVersions_timer Let_def
        split: option.splits prod.splits bool.splits)

lemma timers_edit:
  assumes "isLocalEdit ev"
  shows "timers now ev w h =
           rearm \<lparr>tm_due = now + 2000, tm_content = content (ed (handle now ev w)),
                   tm_title = title (ed (handle now ev w)),
                   tm_description = description (ed (handle now ev w)),
                   tm_save = closure_of (ed w)\<rparr> h"
  using assms
  by (cases ev; simp add: handleContentChange_def handleTitleChange_def
        handleDescriptionChange_def arm_def Let_def)

lemma edit_fields:
  "content (ed (handle now (ContentChange c) w)) = c"
  "title (ed (handle now (ContentChange c) w)) = title (ed w)"
  "description (ed (handle now (ContentChange c) w)) = description (ed w)"
  "content (ed (handle now (TitleChange c) w)) = content (ed w)"
  "title (ed (handle now (TitleChange c) w)) = c"
  "description (ed (handle now (TitleChange c) w)) = description (ed w)"
  "content (ed (handle now (DescriptionChange c) w)) = content (ed w)"
  "title (ed (handle now (DescriptionChange c) w)) = title (ed w)"
  "description (ed (handle now (DescriptionChange c) w)) = c"
  by (simp_all add: handleContentChange_def handleTitleChange_def
        handleDescriptionChange_def Let_def)

lemma three_edits_run:
  assumes e: "isLocalEdit e1" "isLocalEdit e2" "isLocalEdit e3"
    and n: "saveTimeoutRef (ed w) = None"
  shows "run [(t0, e1), (t0 + 500, e2), (t0 + 1000, e3)] w =
           handle (t0 + 1000) e3 (handle (t0 + 500) e2 (handle t0 e1 w))"
proof -
  let ?w1 = "handle t0 e1 w"
  let ?w2 = "handle (t0 + 500) e2 ?w1"
  have s1: "advance t0 w = w" using n by (rule advance_idle)
  from edit_effect(2) [OF e(1), of t0 w]
  obtain tm1 where "saveTimeoutRef (ed ?w1) = Some tm1" "tm_due tm1 = t0 + 2000" by blast
  then have s2: "advance (t0 + 500) ?w1 = ?w1" by (simp add: advance_idle)
  from edit_effect(2) [OF e(2), of "t0 + 500" ?w1]
  obtain tm2 where "saveTimeoutRef (ed ?w2) = Some tm2" "tm_due tm2 = t0 + 500 + 2000" by blast
  then have s3: "advance (t0 + 1000) ?w2 = ?w2" by (simp add: advance_idle)
  show ?thesis by (simp add: s1 s2 s3)
qed

lemma savePrompt_rows:
  assumes "sc_prompt cl = Some p" "sc_currentUser cl = Some u" "faults (store w) = []"
  shows "prompt_versions (store (savePrompt cl now c t d w)) =
           prompt_versions (store w) @
             [\<lparr>pv_id = ''version_'' @ decimal now @ ''_'' @ randoms w (drawn w),
               pv_prompt_id = promptId (ed w),
               pv_version_number = fold max (map pv_version_number (sc_versions cl)) 0 + 1,
               pv_content = c, pv_title = Some t, pv_description = Some d,
               pv_user_id = u_id u, pv_created_at = now\<rparr>]"
    and "prompts (store (savePrompt cl now c t d w)) =
           map (\<lambda>q. if p_id q = promptId (ed w)
                     then q\<lparr>p_content := c, p_title := t, p_description := Some d,
                            p_updated_at := now\<rparr>
                     else q) (prompts (store w))"
  unfolding savePrompt_ok_fields(1,2) [OF assms] newVersion_def nextVersionNumber_def
    updatedPrompts_def by (rule refl)+

text \<open>
  C3. A local edit (of the content, the title or the description) sets its field, leaves
  the store alone and replaces whatever timer was pending by one due 2000 ms later that
  holds the three fields as they are after the edit; before that time nothing fires, so
  the timer that was pending is cancelled. On the timers of the host, clearing the timer
  of the ref and setting a new one leaves the new timer as the only one pending: after
  the \<^verbatim>\<open>clearTimeout\<close> and \<^verbatim>\<open>setTimeout\<close> calls of an edit handler the timer of that
  handler is the only one pending, and after the \<^verbatim>\<open>clearTimeout\<close> of a manual save none
  is. So for
  edits at \<open>t0\<close>, \<open>t0 + 500\<close> and \<open>t0 + 1000\<close> in a ready editor, no save has happened by
  any time before \<open>t0 + 3000\<close>, and from \<open>t0 + 3000\<close> on exactly one version row has
  been added and the prompt row updated, both at \<open>t0 + 3000\<close> and with the content,
  title and description that the third edit left, with no timer left. A manual save clears
  the timer and at once adds a version row and updates the prompt row from the fields in
  memory.
\<close>

theorem debounced_save:
  "(isLocalEdit ev \<longrightarrow>
      store (handle now ev w) = store w \<and>
      saveTimeoutRef (ed (handle now ev w)) =
        Some \<lparr>tm_due = now + 2000, tm_content = content (ed (handle now ev w)),
              tm_title = title (ed (handle now ev w)),
              tm_description = description (ed (handle now ev w)),
              tm_save = closure_of (ed w)\<rparr> \<and>
      (T < now + 2000 \<longrightarrow> advance T (handle now ev w) = handle now ev w)) \<and>
   (content (ed (handle now (ContentChange c) w)) = c \<and>
    title (ed (handle now (ContentChange c) w)) = title (ed w) \<and>
    description (ed (handle now (ContentChange c) w)) = description (ed w) \<and>
    content (ed (handle now (TitleChange c) w)) = content (ed w) \<and>
    title (ed (handle now (TitleChange c) w)) = c \<and>
    description (ed (handle now (TitleChange c) w)) = description (ed w) \<and>
    content (ed (handle now (DescriptionChange c) w)) = content (ed w) \<and>
    title (ed (handle now (DescriptionChange c) w)) = title (ed w) \<and>
    description (ed (handle now (DescriptionChange c) w)) = c) \<and>
   (onlyRef h \<longrightarrow>
      pending (rearm tm h) = [(nextId h, tm)] \<and> slot (rearm tm h) = Some tm \<and>
      onlyRef (rearm tm h) \<and> pending (clearSaveTimeout h) = [] \<and>
      (isLocalEdit ev \<longrightarrow>
         pending (timers now ev w h) =
           [(nextId h, \<lparr>tm_due = now + 2000, tm_content = content (ed (handle now ev w)),
                         tm_title = title (ed (handle now ev w)),
                         tm_description = description (ed (handle now ev w)),
                         tm_save = closure_of (ed w)\<rparr>)] \<and>
         slot (timers now ev w h) = saveTimeoutRef (ed (handle now ev w)) \<and>
         onlyRef (timers now ev w h)) \<and>
      pending (timers now ManualSave w h) = [] \<and>
      slot (timers now ManualSave w h) = saveTimeoutRef (ed (handle now ManualSave w)) \<and>
      onlyRef (timers now ManualSave w h)) \<and>
   (isLocalEdit e1 \<and> isLocalEdit e2 \<and> isLocalEdit e3 \<and> saveTimeoutRef (ed w) = None \<and>
    prompt (ed w) = Some p \<and> currentUser (ed w) = Some u \<and> faults (store w) = [] \<longrightarrow>
      (let w3 = run [(t0, e1), (t0 + 500, e2), (t0 + 1000, e3)] w
       in w3 = handle (t0 + 1000) e3 (handle (t0 + 500) e2 (handle t0 e1 w)) \<and>
          store w3 = store w \<and>
          (T < t0 + 3000 \<longrightarrow> advance T w3 = w3) \<and>
          (t0 + 3000 \<le> T \<longrightarrow>
             prompt_versions (store (advance T w3)) =
               prompt_versions (store w) @
                 [\<lparr>pv_id = ''version_'' @ decimal (t0 + 3000) @ ''_'' @ randoms w (drawn w),
                   pv_prompt_id = promptId (ed w),
                   pv_version_number = fold max (map pv_version_number (versions (ed w))) 0 + 1,
                   pv_content = content (ed w3), pv_title = Some (title (ed w3)),
                   pv_description = Some (description (ed w3)),
                   pv_user_id = u_id u, pv_created_at = t0 + 3000\<rparr>] \<and>
             prompts (store (advance T w3)) =
               map (\<lambda>q. if p_id q = promptId (ed w)
                         then q\<lparr>p_content := content (ed w3), p_title := title (ed w3),
                                p_description := Some (description (ed w3)),
                                p_updated_at := t0 + 3000\<rparr>
                         else q) (prompts (store w)) \<and>
             saveTimeoutRef (ed (advance T w3)) = None \<and>
             advance T' (advance T w3) = advance T w3))) \<and>
   (prompt (ed w) = Some p \<and> currentUser (ed w) = Some u \<and> faults (store w) = [] \<longrightarrow>
      prompt_versions (store (handleManualSave now w)) =
        prompt_versions (store w) @
          [\<lparr>pv_id = ''version_'' @ decimal now @ ''_'' @ randoms w (drawn w),
            pv_prompt_id = promptId (ed w),
            pv_version_number = fold max (map pv_version_number (versions (ed w))) 0 + 1,
            pv_content = content (ed w), pv_title = Some (title (ed w)),
            pv_description = Some (description (ed w)),
            pv_user_id = u_id u, pv_created_at = now\<rparr>] \<and>
      prompts (store (handleManualSave now w)) =
        map (\<lambda>q. if p_id q = promptId (ed w)
                  then q\<lparr>p_content := content (ed w), p_title := title (ed w),
                         p_description := Some (description (ed w)), p_updated_at := now\<rparr>
                  else q) (prompts (store w)) \<and>
      saveTimeoutRef (ed (handleManualSave now w)) = None \<and>
      advance T' (handleManualSave now w) = handleManualSave now w)"
proof (intro conjI impI; (elim conjE)?)
  assume e: "isLocalEdit ev"
  show "store (handle now ev w) = store w" using e by (rule edit_effect(1))
  show t: "saveTimeoutRef (ed (handle now ev w)) =
        Some \<lparr>tm_due = now + 2000, tm_content = content (ed (handle now ev w)),
              tm_title = title (ed (handle now ev w)),
              tm_description = description (ed (handle now ev w)),
              tm_save = closure_of (ed w)\<rparr>"
    using e by (rule edit_timer)
  assume "T < now + 2000"
  then show "advance T (handle now ev w) = handle now ev w"
    using advance_idle(2) [OF t] by simp
next
  assume o: "onlyRef h"
  then show "pending (rearm tm h) = [(nextId h, tm)]" "slot (rearm tm h) = Some tm"
    "onlyRef (rearm tm h)" "pending (clearSaveTimeout h) = []"
    by (simp_all add: rearm_cancels clearSaveTimeout_cancels)
  have m: "handle now ManualSave w = handleManualSave now w" by simp
  have t: "saveTimeoutRef (ed (handleManualSave now w)) = None"
    by (simp add: handleManualSave_def Let_def savePrompt_timer)
  show c: "pending (timers now ManualSave w h) = []"
    using o by (simp add: clearSaveTimeout_cancels)
  show "slot (timers now ManualSave w h) = saveTimeoutRef (ed (handle now ManualSave w))"
    unfolding m t using o by (simp add: clearSaveTimeout_cancels)
  show "onlyRef (timers now ManualSave w h)"
    by (simp add: onlyRef_def clearSaveTimeout_cancels(1) [OF o])
  assume e: "isLocalEdit ev"
  note te = timers_edit [OF e, of now w h]
  show "pending (timers now ev w h) =
           [(nextId h, \<lparr>tm_due = now + 2000, tm_content = content (ed (handle now ev w)),
                         tm_title = title (ed (handle now ev w)),
                         tm_description = description (ed (handle now ev w)),
                         tm_save = closure_of (ed w)\<rparr>)]"
    unfolding te using o by (rule rearm_cancels(1))
  show "slot (timers now ev w h) = saveTimeoutRef (ed (handle now ev w))"
    unfolding te edit_timer [OF e] using o by (rule rearm_cancels(3))
  show "onlyRef (timers now ev w h)"
    unfolding te using o by (rule rearm_cancels(4))
next
  assume e: "isLocalEdit e1" "isLocalEdit e2" "isLocalEdit e3"
    and n: "saveTimeoutRef (ed w) = None"
    and r: "prompt (ed w) = Some p" "currentUser (ed w) = Some u" "faults (store w) = []"
  let ?w3 = "run [(t0, e1), (t0 + 500, e2), (t0 + 1000, e3)] w"
  note te = three_edits [OF e n, of t0]
  from te(2) obtain tm where tm: "saveTimeoutRef (ed ?w3) = Some tm" "tm_due tm = t0 + 3000"
    "tm_content tm = content (ed ?w3)" "tm_title tm = title (ed ?w3)"
    "tm_description tm = description (ed ?w3)" "tm_save tm = closure_of (ed w)"
    by blast
  have steps: "?w3 = handle (t0 + 1000) e3 (handle (t0 + 500) e2 (handle t0 e1 w))"
    using e n by (rule three_edits_run)
  have early: "T < t0 + 3000 \<longrightarrow> advance T ?w3 = ?w3"
    using tm(1,2) by (simp add: advance_idle)
  have late: "t0 + 3000 \<le> T \<longrightarrow>
             prompt_versions (store (advance T ?w3)) =
               prompt_versions (store w) @
                 [\<lparr>pv_id = ''version_'' @ decimal (t0 + 3000) @ ''_'' @ randoms w (drawn w),
                   pv_prompt_id = promptId (ed w),
                   pv_version_number = fold max (map pv_version_number (versions (ed w))) 0 + 1,
                   pv_content = content (ed ?w3), pv_title = Some (title (ed ?w3)),
                   pv_description = Some (description (ed ?w3)),
                   pv_user_id = u_id u, pv_created_at = t0 + 3000\<rparr>] \<and>
             prompts (store (advance T ?w3)) =
               map (\<lambda>q. if p_id q = promptId (ed w)
                         then q\<lparr>p_content := content (ed ?w3), p_title := title (ed ?w3),
                                p_description := Some (description (ed ?w3)),
                                p_updated_at := t0 + 3000\<rparr>
                         else q) (prompts (store w)) \<and>
             saveTimeoutRef (ed (advance T ?w3)) = None \<and>
             advance T' (advance T ?w3) = advance T ?w3"
  proof
    assume "t0 + 3000 \<le> T"
    then have d: "tm_due tm \<le> T" using tm(2) by simp
    let ?w = "?w3\<lparr>ed := (ed ?w3)\<lparr>saveTimeoutRef := None\<rparr>\<rparr>"
    have "advance T ?w3 = savePrompt (tm_save tm) (tm_due tm) (tm_content tm) (tm_title tm)
                     (tm_description tm) ?w"
      using tm(1) d by (rule advance_fire)
    then have a: "advance T ?w3 = savePrompt (tm_save tm) (t0 + 3000) (content (ed ?w3))
                     (title (ed ?w3)) (description (ed ?w3)) ?w"
      unfolding tm(2,3,4,5) .
    have cl: "sc_prompt (tm_save tm) = Some p" "sc_currentUser (tm_save tm) = Some u"
      "sc_versions (tm_save tm) = versions (ed w)"
      using r(1,2) by (simp_all add: tm(6) closure_of_fields)
    have f: "faults (store ?w) = []" using r(3) te(1) by simp
    have same: "store ?w = store w" "promptId (ed ?w) = promptId (ed w)"
      "randoms ?w = randoms w" "drawn ?w = drawn w"
      using te(1,4,5,6) by simp_all
    note rows = savePrompt_rows [OF cl(1,2) f, of "t0 + 3000" "content (ed ?w3)" "title (ed ?w3)"
        "description (ed ?w3)", unfolded same cl(3)]
    note tf = timer_fires(2) [OF r tm(1) d tm(6) te(1,4,5,6)]
    have v: "prompt_versions (store (advance T ?w3)) =
               prompt_versions (store w) @
                 [\<lparr>pv_id = ''version_'' @ decimal (t0 + 3000) @ ''_'' @ randoms w (drawn w),
                   pv_prompt_id = promptId (ed w),
                   pv_version_number = fold max (map pv_version_number (versions (ed w))) 0 + 1,
                   pv_content = content (ed ?w3), pv_title = Some (title (ed ?w3)),
                   pv_description = Some (description (ed ?w3)),
                   pv_user_id = u_id u, pv_created_at = t0 + 3000\<rparr>]"
      unfolding a by (rule rows(1))
    have q: "prompts (store (advance T ?w3)) =
               map (\<lambda>q. if p_id q = promptId (ed w)
                         then q\<lparr>p_content := content (ed ?w3), p_title := title (ed ?w3),
                                p_description := Some (description (ed ?w3)),
                                p_updated_at := t0 + 3000\<rparr>
                         else q) (prompts (store w))"
      unfolding a by (rule rows(2))
    from v q tf advance_idle(1) [OF tf]
    show "prompt_versions (store (advance T ?w3)) =
               prompt_versions (store w) @
                 [\<lparr>pv_id = ''version_'' @ decimal (t0 + 3000) @ ''_'' @ randoms w (drawn w),
                   pv_prompt_id = promptId (ed w),
                   pv_version_number = fold max (map pv_version_number (versions (ed w))) 0 + 1,
                   pv_content = content (ed ?w3), pv_title = Some (title (ed ?w3)),
                   pv_description = Some (description (ed ?w3)),
                   pv_user_id = u_id u, pv_created_at = t0 + 3000\<rparr>] \<and>
             prompts (store (advance T ?w3)) =
               map (\<lambda>q. if p_id q = promptId (ed w)
                         then q\<lparr>p_content := content (ed ?w3), p_title := title (ed ?w3),
                                p_description := Some (description (ed ?w3)),
                                p_updated_at := t0 + 3000\<rparr>
                         else q) (prompts (store w)) \<and>
             saveTimeoutRef (ed (advance T ?w3)) = None \<and>
             advance T' (advance T ?w3) = advance T ?w3"
      by (intro conjI)
  qed
  show "let w3 = run [(t0, e1), (t0 + 500, e2), (t0 + 1000, e3)] w
       in w3 = handle (t0 + 1000) e3 (handle (t0 + 500) e2 (handle t0 e1 w)) \<and>
          store w3 = store w \<and>
          (T < t0 + 3000 \<longrightarrow> advance T w3 = w3) \<and>
          (t0 + 3000 \<le> T \<longrightarrow>
             prompt_versions (store (advance T w3)) =
               prompt_versions (store w) @
                 [\<lparr>pv_id = ''version_'' @ decimal (t0 + 3000) @ ''_'' @ randoms w (drawn w),
                   pv_prompt_id = promptId (ed w),
                   pv_version_number = fold max (map pv_version_number (versions (ed w))) 0 + 1,
                   pv_content = content (ed w3), pv_title = Some (title (ed w3)),
                   pv_description = Some (description (ed w3)),
                   pv_user_id = u_id u, pv_created_at = t0 + 3000\<rparr>] \<and>
             prompts (store (advance T w3)) =
               map (\<lambda>q. if p_id q = promptId (ed w)
                         then q\<lparr>p_content := content (ed w3), p_title := title (ed w3),
                                p_description := Some (description (ed w3)),
                                p_updated_at := t0 + 3000\<rparr>
                         else q) (prompts (store w)) \<and>
             saveTimeoutRef (ed (advance T w3)) = None \<and>
             advance T' (advance T w3) = advance T w3)"
    unfolding Let_def using steps te(1) early late by (intro conjI)
next
  assume r: "prompt (ed w) = Some p" "currentUser (ed w) = Some u" "faults (store w) = []"
  let ?w = "w\<lparr>ed := (ed w)\<lparr>saveTimeoutRef := None\<rparr>\<rparr>"
  have a: "handleManualSave now w =
      savePrompt (closure_of (ed w)) now (content (ed w)) (title (ed w)) (description (ed w)) ?w"
    unfolding handleManualSave_def Let_def ..
  have cl: "sc_prompt (closure_of (ed w)) = Some p" "sc_currentUser (closure_of (ed w)) = Some u"
    "sc_versions (closure_of (ed w)) = versions (ed w)"
    using r(1,2) by (simp_all add: closure_of_fields)
  have f: "faults (store ?w) = []" using r(3) by simp
  have same: "store ?w = store w" "promptId (ed ?w) = promptId (ed w)"
    "randoms ?w = randoms w" "drawn ?w = drawn w"
    by simp_all
  note rows = savePrompt_rows [OF cl(1,2) f, of now "content (ed w)" "title (ed w)"
      "description (ed w)", unfolded same cl(3)]
  note ms = manual_save [OF r, of now]
  show "prompt_versions (store (handleManualSave now w)) =
        prompt_versions (store w) @
          [\<lparr>pv_id = ''version_'' @ decimal now @ ''_'' @ randoms w (drawn w),
            pv_prompt_id = promptId (ed w),
            pv_version_number = fold max (map pv_version_number (versions (ed w))) 0 + 1,
            pv_content = content (ed w), pv_title = Some (title (ed w)),
            pv_description = Some (description (ed w)),
            pv_user_id = u_id u, pv_created_at = now\<rparr>]"
    unfolding a by (rule rows(1))
  show "prompts (store (handleManualSave now w)) =
        map (\<lambda>q. if p_id q = promptId (ed w)
                  then q\<lparr>p_content := content (ed w), p_title := title (ed w),
                         p_description := Some (description (ed w)), p_updated_at := now\<rparr>
                  else q) (prompts (store w))"
    unfolding a by (rule rows(2))
  show "saveTimeoutRef (ed (handleManualSave now w)) = None" by (rule ms(2))
  show "advance T' (handleManualSave now w) = handleManualSave now w"
    using ms(2) by (rule advance_idle(1))
qed (rule edit_fields)+

lemmas world_defs = ready_world_def ready_editor_def sample_backend_def sample_prompt_def
  sample_user_def

theorem debounced_save_witness:
  "isLocalEdit (ContentChange ''a'') \<and> isLocalEdit (TitleChange ''b'') \<and>
   isLocalEdit (DescriptionChange ''c'') \<and> saveTimeoutRef (ed ready_world) = None \<and>
   prompt (ed ready_world) = Some sample_prompt \<and> currentUser (ed ready_world) = Some sample_user \<and>
   faults (store ready_world) = [] \<and> onlyRef sample_host \<and>
   pending (rearm (arm 600 ''y'' ''Greeting'' [] ready_editor) sample_host) =
     [(5, arm 600 ''y'' ''Greeting'' [] ready_editor)] \<and>
   pending (clearSaveTimeout sample_host) = [] \<and>
   pending (timers 0 (ContentChange ''a'') ready_world sample_host) =
     [(5, arm 0 ''a'' ''Greeting'' [] ready_editor)] \<and>
   pending (timers 0 ManualSave ready_world sample_host) = [] \<and>
   advance 1999 (handle 0 (ContentChange ''a'') ready_world) =
     handle 0 (ContentChange ''a'') ready_world \<and>
   (let w3 = run [(0, ContentChange ''a''), (500, TitleChange ''b''), (1000, DescriptionChange ''c'')]
               ready_world
    in content (ed w3) = ''a'' \<and> title (ed w3) = ''b'' \<and> description (ed w3) = ''c'' \<and>
       store w3 = store ready_world \<and> advance 2000 w3 = w3 \<and> advance 2500 w3 = w3 \<and>
       prompt_versions (store (advance 3000 w3)) =
         [\<lparr>pv_id = ''version_3000_k3x'', pv_prompt_id = ''p1'', pv_version_number = 1,
           pv_content = ''a'', pv_title = Some ''b'', pv_description = Some ''c'',
           pv_user_id = ''u1'', pv_created_at = 3000\<rparr>] \<and>
       prompts (store (advance 3000 w3)) =
         [\<lparr>p_id = ''p1'', p_title = ''b'', p_content = ''a'', p_description = Some ''c'',
           p_updated_at = 3000\<rparr>] \<and>
       saveTimeoutRef (ed (advance 3000 w3)) = None \<and>
       advance 60000 (advance 3000 w3) = advance 3000 w3) \<and>
   prompt_versions (store (handleManualSave 1200 ready_world)) =
     [\<lparr>pv_id = ''version_1200_k3x'', pv_prompt_id = ''p1'', pv_version_number = 1,
       pv_content = ''Say hi'', pv_title = Some ''Greeting'', pv_description = Some [],
       pv_user_id = ''u1'', pv_created_at = 1200\<rparr>] \<and>
   prompts (store (handleManualSave 1200 ready_world)) =
     [\<lparr>p_id = ''p1'', p_title = ''Greeting'', p_content = ''Say hi'', p_description = Some [],
       p_updated_at = 1200\<rparr>]"
proof -
  let ?w3 = "run [(0, ContentChange ''a''), (0 + 500, TitleChange ''b''), (0 + 1000, DescriptionChange ''c'')]
               ready_world"
  let ?tm = "arm 600 ''y'' ''Greeting'' [] ready_editor"
  have hA: "isLocalEdit (ContentChange ''a'')" by simp
  have hC: "prompt (ed ready_world) = Some sample_prompt \<and>
     currentUser (ed ready_world) = Some sample_user \<and> faults (store ready_world) = []"
    by (simp add: world_defs)
  have hB: "isLocalEdit (ContentChange ''a'') \<and> isLocalEdit (TitleChange ''b'') \<and>
     isLocalEdit (DescriptionChange ''c'') \<and> saveTimeoutRef (ed ready_world) = None \<and>
     prompt (ed ready_world) = Some sample_prompt \<and>
     currentUser (ed ready_world) = Some sample_user \<and> faults (store ready_world) = []"
    using hC by (simp add: world_defs)
  have o: "onlyRef sample_host" "nextId sample_host = 5"
    by (simp_all add: onlyRef_def sample_host_def)
  have f: "promptId (ed ready_world) = ''p1''" "versions (ed ready_world) = []"
    "randoms ready_world (drawn ready_world) = ''k3x''" "prompt_versions (store ready_world) = []"
    "content (ed ready_world) = ''Say hi''" "title (ed ready_world) = ''Greeting''"
    "description (ed ready_world) = []" "u_id sample_user = ''u1''"
    "prompts (store ready_world) =
       [\<lparr>p_id = ''p1'', p_title = ''Greeting'', p_content = ''Say hi'', p_description = None,
         p_updated_at = 0\<rparr>]"
    by (simp_all add: world_defs)
  note d = debounced_save [where w = ready_world and p = sample_prompt and u = sample_user
      and ?e1.0 = "ContentChange ''a''" and ?e2.0 = "TitleChange ''b''"
      and ?e3.0 = "DescriptionChange ''c''" and ?t0.0 = 0 and ev = "ContentChange ''a''"
      and h = sample_host and tm = ?tm]
  note A = d [where now = 0 and T = 1999, THEN conjunct1, THEN mp, OF hA]
  note H0 = d [where now = 0, THEN conjunct2, THEN conjunct2, THEN conjunct1, THEN mp, OF o(1),
      unfolded o(2)]
  note H = d [THEN conjunct2, THEN conjunct2, THEN conjunct1, THEN mp, OF o(1), unfolded o(2)]
  note B = d [where T = 2000, THEN conjunct2, THEN conjunct2, THEN conjunct2, THEN conjunct1,
      THEN mp, OF hB, unfolded Let_def]
  note B' = d [where T = 2500, THEN conjunct2, THEN conjunct2, THEN conjunct2, THEN conjunct1,
      THEN mp, OF hB, unfolded Let_def]
  note B'' = d [where T = 3000 and T' = 60000, THEN conjunct2, THEN conjunct2, THEN conjunct2,
      THEN conjunct1, THEN mp, OF hB, unfolded Let_def]
  note C = d [where now = 1200, THEN conjunct2, THEN conjunct2, THEN conjunct2, THEN conjunct2,
      THEN mp, OF hC, unfolded f]
  have lt: "(1999::nat) < 0 + 2000" "(2000::nat) < 0 + 3000" "(2500::nat) < 0 + 3000"
    "(0::nat) + 3000 \<le> 3000" by simp_all
  have c0: "advance 1999 (handle 0 (ContentChange ''a'') ready_world) =
     handle 0 (ContentChange ''a'') ready_world"
    using A [THEN conjunct2, THEN conjunct2, THEN mp, OF lt(1)] .
  have c5: "pending (rearm ?tm sample_host) = [(5, ?tm)]"
    "pending (clearSaveTimeout sample_host) = []"
    using H by blast+
  note st = B [THEN conjunct1]
  note F = debounced_save [THEN conjunct2, THEN conjunct1]
  have g: "content (ed ?w3) = ''a''" "title (ed ?w3) = ''b''" "description (ed ?w3) = ''c''"
    unfolding st using F by simp_all
  have c6: "pending (timers 0 (ContentChange ''a'') ready_world sample_host) =
     [(5, arm 0 ''a'' ''Greeting'' [] ready_editor)]"
    "pending (timers 0 ManualSave ready_world sample_host) = []"
    using H0 hA F f by (simp_all add: arm_def ready_world_def)
  have c1: "store ?w3 = store ready_world" using B by blast
  have c2: "advance 2000 ?w3 = ?w3" "advance 2500 ?w3 = ?w3"
    using B [THEN conjunct2, THEN conjunct2, THEN conjunct1, THEN mp, OF lt(2)]
      B' [THEN conjunct2, THEN conjunct2, THEN conjunct1, THEN mp, OF lt(3)]
    by blast+
  note L = B'' [THEN conjunct2, THEN conjunct2, THEN conjunct2, THEN mp, OF lt(4), unfolded f g]
  have c3: "prompt_versions (store (advance 3000 ?w3)) =
         [\<lparr>pv_id = ''version_3000_k3x'', pv_prompt_id = ''p1'', pv_version_number = 1,
           pv_content = ''a'', pv_title = Some ''b'', pv_description = Some ''c'',
           pv_user_id = ''u1'', pv_created_at = 3000\<rparr>]"
    "prompts (store (advance 3000 ?w3)) =
         [\<lparr>p_id = ''p1'', p_title = ''b'', p_content = ''a'', p_description = Some ''c'',
           p_updated_at = 3000\<rparr>]"
    "saveTimeoutRef (ed (advance 3000 ?w3)) = None"
    "advance 60000 (advance 3000 ?w3) = advance 3000 ?w3"
    using L by simp_all
  have c4: "prompt_versions (store (handleManualSave 1200 ready_world)) =
     [\<lparr>pv_id = ''version_1200_k3x'', pv_prompt_id = ''p1'', pv_version_number = 1,
       pv_content = ''Say hi'', pv_title = Some ''Greeting'', pv_description = Some [],
       pv_user_id = ''u1'', pv_created_at = 1200\<rparr>]"
    "prompts (store (handleManualSave 1200 ready_world)) =
     [\<lparr>p_id = ''p1'', p_title = ''Greeting'', p_content = ''Say hi'', p_description = Some [],
       p_updated_at = 1200\<rparr>]"
    using C by simp_all
  have n: "run [(0, ContentChange ''a''), (500, TitleChange ''b''), (1000, DescriptionChange ''c'')]
             ready_world = ?w3"
    by (simp only: add_0)
  from hB o(1) c0 c1 c2 c3 c4 c5 c6 g show ?thesis unfolding Let_def n by blast
qed

section \<open>Restoring a version\<close>

text \<open>
  C7. In a ready editor whose store answers, restoring version \<open>K\<close> adds one row to the
  version log, with the content of \<open>K\<close>, and writes the content, title and description
  of \<open>K\<close> (an absent title or description as the empty string) to the prompt row and to
  the editor; the rows of the other prompts stay as they are. Whatever the store does, the rows that were in the log are still there, in
  place and unchanged; \<open>K\<close> is one of them.
\<close>

theorem restoreVersion_appends:
  "(prompt (ed w) = Some p \<and> currentUser (ed w) = Some u \<and> faults (store w) = [] \<longrightarrow>
      (\<exists>row. prompt_versions (store (restoreVersion now K w)) = prompt_versions (store w) @ [row] \<and>
             pv_prompt_id row = promptId (ed w) \<and> pv_content row = pv_content K) \<and>
      (\<forall>q \<in> set (prompts (store (restoreVersion now K w))). p_id q = promptId (ed w) \<longrightarrow>
          p_content q = pv_content K \<and> p_title q = or_default (pv_title K) [] \<and>
          p_description q = Some (or_default (pv_description K) [])) \<and>
      content (ed (restoreVersion now K w)) = pv_content K \<and>
      title (ed (restoreVersion now K w)) = or_default (pv_title K) [] \<and>
      description (ed (restoreVersion now K w)) = or_default (pv_description K) [] \<and>
      prompts (store (restoreVersion now K w)) =
        map (\<lambda>q. if p_id q = promptId (ed w)
                  then q\<lparr>p_content := pv_content K, p_title := or_default (pv_title K) [],
                         p_description := Some (or_default (pv_description K) []),
                         p_updated_at := now\<rparr>
                  else q) (prompts (store w))) \<and>
   (K \<in> set (prompt_versions (store w)) \<longrightarrow>
      K \<in> set (prompt_versions (store (restoreVersion now K w)))) \<and>
   take (length (prompt_versions (store w))) (prompt_versions (store (restoreVersion now K w))) =
     prompt_versions (store w)"
proof (intro conjI impI ballI; (elim conjE)?)
  assume r: "prompt (ed w) = Some p" "currentUser (ed w) = Some u" "faults (store w) = []"
  note ok = restoreVersion_ok [OF r, of now K]
  let ?row = "newVersion (promptId (ed w)) (versions (ed w)) u now (randoms w (drawn w))
                (pv_content K) (or_default (pv_title K) []) (or_default (pv_description K) [])"
  have "pv_prompt_id ?row = promptId (ed w)" "pv_content ?row = pv_content K"
    by (simp_all add: newVersion_def)
  with ok(1)
  show "\<exists>row. prompt_versions (store (restoreVersion now K w)) = prompt_versions (store w) @ [row] \<and>
             pv_prompt_id row = promptId (ed w) \<and> pv_content row = pv_content K"
    by blast
  show "content (ed (restoreVersion now K w)) = pv_content K" by (rule ok(3))
  show "title (ed (restoreVersion now K w)) = or_default (pv_title K) []" by (rule ok(4))
  show "description (ed (restoreVersion now K w)) = or_default (pv_description K) []" by (rule ok(5))
  show "prompts (store (restoreVersion now K w)) =
        map (\<lambda>q. if p_id q = promptId (ed w)
                  then q\<lparr>p_content := pv_content K, p_title := or_default (pv_title K) [],
                         p_description := Some (or_default (pv_description K) []),
                         p_updated_at := now\<rparr>
                  else q) (prompts (store w))"
    by (rule ok(2) [unfolded updatedPrompts_def])
  fix q assume "q \<in> set (prompts (store (restoreVersion now K w)))" "p_id q = promptId (ed w)"
  then have "p_content q = pv_content K \<and> p_title q = or_default (pv_title K) [] \<and>
      p_description q = Some (or_default (pv_description K) []) \<and> p_updated_at q = now"
    unfolding ok(2) by (rule updatedPrompts_row)
  then show "p_content q = pv_content K" "p_title q = or_default (pv_title K) []"
    "p_description q = Some (or_default (pv_description K) [])" by simp_all
next
  assume "K \<in> set (prompt_versions (store w))"
  then show "K \<in> set (prompt_versions (store (restoreVersion now K w)))"
    using restoreVersion_grow [of now K w] by auto
next
  show "take (length (prompt_versions (store w))) (prompt_versions (store (restoreVersion now K w))) =
     prompt_versions (store w)"
    using restoreVersion_grow [of now K w] by auto
qed

lemmas versioned_defs = versioned_world_def first_version_def newVersion_def nextVersionNumber_def
  world_defs

theorem restoreVersion_appends_witness:
  "prompt (ed versioned_world) = Some sample_prompt \<and>
   currentUser (ed versioned_world) = Some sample_user \<and> faults (store versioned_world) = [] \<and>
   first_version \<in> set (prompt_versions (store versioned_world)) \<and>
   sample_prompt \<in> set (prompts (store versioned_world)) \<and>
   prompt_versions (store (restoreVersion 9000 first_version versioned_world)) =
     [first_version, newVersion ''p1'' [first_version] sample_user 9000 ''k3x'' ''a'' ''Greeting'' []] \<and>
   first_version \<in> set (prompt_versions (store (restoreVersion 9000 first_version versioned_world))) \<and>
   content (ed (restoreVersion 9000 first_version versioned_world)) = ''a'' \<and>
   title (ed (restoreVersion 9000 first_version versioned_world)) = ''Greeting'' \<and>
   prompts (store (restoreVersion 9000 first_version versioned_world)) =
     [\<lparr>p_id = ''p1'', p_title = ''Greeting'', p_content = ''a'', p_description = Some [],
       p_updated_at = 9000\<rparr>]"
proof -
  have h: "prompt (ed versioned_world) = Some sample_prompt \<and>
     currentUser (ed versioned_world) = Some sample_user \<and> faults (store versioned_world) = []"
    by (simp add: versioned_defs)
  have k: "first_version \<in> set (prompt_versions (store versioned_world))"
    "sample_prompt \<in> set (prompts (store versioned_world))"
    by (simp_all add: versioned_world_def world_defs)
  have e: "prompt_versions (store (restoreVersion 9000 first_version versioned_world)) =
     [first_version, newVersion ''p1'' [first_version] sample_user 9000 ''k3x'' ''a'' ''Greeting'' []]"
    using restoreVersion_ok(1) [of versioned_world sample_prompt sample_user 9000 first_version] h
    by (simp add: versioned_defs or_default_def)
  note t = restoreVersion_appends [where w = versioned_world and p = sample_prompt
      and u = sample_user and now = 9000 and K = first_version]
  from t h k have c: "first_version \<in> set (prompt_versions (store (restoreVersion 9000 first_version versioned_world))) \<and>
      content (ed (restoreVersion 9000 first_version versioned_world)) = pv_content first_version \<and>
      title (ed (restoreVersion 9000 first_version versioned_world)) = or_default (pv_title first_version) []"
    by blast
  from t h have "prompts (store (restoreVersion 9000 first_version versioned_world)) =
        map (\<lambda>q. if p_id q = promptId (ed versioned_world)
                  then q\<lparr>p_content := pv_content first_version,
                         p_title := or_default (pv_title first_version) [],
                         p_description := Some (or_default (pv_description first_version) []),
                         p_updated_at := 9000\<rparr>
                  else q) (prompts (store versioned_world))"
    by blast
  then have q: "prompts (store (restoreVersion 9000 first_version versioned_world)) =
     [\<lparr>p_id = ''p1'', p_title = ''Greeting'', p_content = ''a'', p_description = Some [],
       p_updated_at = 9000\<rparr>]"
    by (simp add: versioned_defs or_default_def)
  from h k e c q show ?thesis by (simp add: first_version_def newVersion_def or_default_def)
qed

section \<open>Messages from other users\<close>

text \<open>
  C2. A \<^verbatim>\<open>content_change\<close> message whose user id is not the current user's replaces the
  local content, title and description by the values of its payload. It leaves the save
  timer as it was and does not touch the store: nothing is saved, and with no timer
  pending nothing will be.
\<close>

theorem remote_change_overwrites:
  assumes "msg_type m = ''content_change''"
    and "Some (msg_userId m) \<noteq> map_option u_id (currentUser (ed w))"
    and "cd_title (msg_data m) = Some t" and "cd_description (msg_data m) = Some d"
  shows "content (ed (onMessage m w)) = cd_content (msg_data m) \<and>
         title (ed (onMessage m w)) = t \<and> description (ed (onMessage m w)) = d \<and>
         saveTimeoutRef (ed (onMessage m w)) = saveTimeoutRef (ed w) \<and>
         store (onMessage m w) = store w \<and> chan (onMessage m w) = chan w \<and>
         handle now (Message m) w = onMessage m w \<and>
         (saveTimeoutRef (ed w) = None \<longrightarrow> advance T (onMessage m w) = onMessage m w)"
proof -
  have o: "onMessage m w =
      w\<lparr>ed := (ed w)\<lparr>content := cd_content (msg_data m), title := t, description := d\<rparr>\<rparr>"
    using assms by (simp add: onMessage_def or_default_def)
  have f: "content (ed (onMessage m w)) = cd_content (msg_data m)"
    "title (ed (onMessage m w)) = t" "description (ed (onMessage m w)) = d"
    "saveTimeoutRef (ed (onMessage m w)) = saveTimeoutRef (ed w)"
    "store (onMessage m w) = store w" "chan (onMessage m w) = chan w"
    unfolding o by simp_all
  have h: "handle now (Message m) w = onMessage m w" by simp
  have a: "saveTimeoutRef (ed w) = None \<longrightarrow> advance T (onMessage m w) = onMessage m w"
    using f(4) by (simp add: advance_idle(1))
  from f h a show ?thesis by blast
qed

theorem remote_change_overwrites_witness:
  "(let w = handleContentChange 100 ''hello'' ready_world;
        m = delivered ''u1'' (last (published (chan w)))
    in msg_type m = ''content_change'' \<and>
       Some (msg_userId m) \<noteq> map_option u_id (currentUser (ed other_world)) \<and>
       cd_title (msg_data m) = Some ''Greeting'' \<and> cd_description (msg_data m) = Some [] \<and>
       content (ed (onMessage m other_world)) = ''hello'' \<and>
       title (ed (onMessage m other_world)) = ''Greeting'' \<and>
       description (ed (onMessage m other_world)) = [] \<and>
       saveTimeoutRef (ed (onMessage m other_world)) = None \<and>
       store (onMessage m other_world) = store other_world \<and>
       advance 60000 (onMessage m other_world) = onMessage m other_world)"
proof -
  let ?m = "delivered ''u1'' (last (published (chan (handleContentChange 100 ''hello'' ready_world))))"
  have h: "msg_type ?m = ''content_change''"
    "Some (msg_userId ?m) \<noteq> map_option u_id (currentUser (ed other_world))"
    "cd_title (msg_data ?m) = Some ''Greeting''" "cd_description (msg_data ?m) = Some []"
    "cd_content (msg_data ?m) = ''hello''" "saveTimeoutRef (ed other_world) = None"
    by (simp_all add: delivered_def handleContentChange_def publish_def Let_def other_world_def
          other_user_def world_defs)
  from remote_change_overwrites [OF h(1-4), of 0 60000] h(5,6)
  have "content (ed (onMessage ?m other_world)) = ''hello'' \<and>
       title (ed (onMessage ?m other_world)) = ''Greeting'' \<and>
       description (ed (onMessage ?m other_world)) = [] \<and>
       saveTimeoutRef (ed (onMessage ?m other_world)) = None \<and>
       store (onMessage ?m other_world) = store other_world \<and>
       advance 60000 (onMessage ?m other_world) = onMessage ?m other_world"
    by simp
  with h(1-4) show ?thesis unfolding Let_def by blast
qed

text \<open>
  C10. When a \<^verbatim>\<open>content_change\<close> message from another user has no title, the local
  title becomes the empty string, whatever it was; the same holds for the description.
\<close>

theorem remote_change_clears_absent_fields:
  assumes "msg_type m = ''content_change''"
    and "Some (msg_userId m) \<noteq> map_option u_id (currentUser (ed w))"
  shows "(cd_title (msg_data m) = None \<longrightarrow> title (ed (onMessage m w)) = []) \<and>
         (cd_description (msg_data m) = None \<longrightarrow> description (ed (onMessage m w)) = [])"
  using assms by (simp add: onMessage_def or_default_def)

theorem remote_change_clears_absent_fields_witness:
  "(let m = \<lparr>msg_type = ''content_change'', msg_userId = ''u2'',
             msg_data = \<lparr>cd_content = ''x'', cd_title = None, cd_description = None,
                         cd_timestamp = 5\<rparr>\<rparr>;
        w = ready_world\<lparr>ed := ready_editor\<lparr>description := ''A greeting''\<rparr>\<rparr>
    in msg_type m = ''content_change'' \<and>
       Some (msg_userId m) \<noteq> map_option u_id (currentUser (ed w)) \<and>
       cd_title (msg_data m) = None \<and> cd_description (msg_data m) = None \<and>
       title (ed w) = ''Greeting'' \<and> description (ed w) = ''A greeting'' \<and>
       title (ed (onMessage m w)) = [] \<and> description (ed (onMessage m w)) = [])"
proof -
  let ?m = "\<lparr>msg_type = ''content_change'', msg_userId = ''u2'',
             msg_data = \<lparr>cd_content = ''x'', cd_title = None, cd_description = None,
                         cd_timestamp = 5\<rparr>\<rparr>"
  let ?w = "ready_world\<lparr>ed := ready_editor\<lparr>description := ''A greeting''\<rparr>\<rparr>"
  have h: "msg_type ?m = ''content_change''"
    "Some (msg_userId ?m) \<noteq> map_option u_id (currentUser (ed ?w))"
    "cd_title (msg_data ?m) = None" "cd_description (msg_data ?m) = None"
    "title (ed ?w) = ''Greeting''" "description (ed ?w) = ''A greeting''"
    by (simp_all add: world_defs)
  from remote_change_clears_absent_fields [OF h(1,2)] h(3,4)
  have "title (ed (onMessage ?m ?w)) = [] \<and> description (ed (onMessage ?m ?w)) = []"
    by blast
  with h show ?thesis unfolding Let_def by blast
qed

section \<open>Closing the editor\<close>

lemma cleanup_chan: "chan (cleanup w) = chan w"
  by (simp add: cleanup_def Let_def split: option.splits prod.splits bool.splits)

lemma cleanup_timer: "saveTimeoutRef (ed (cleanup w)) = None"
  by (simp add: cleanup_def Let_def split: option.splits prod.splits bool.splits)

lemmas open_defs = mount_def loadData_def loadPrompt_def request_def loadVersions_def latestVersions_def versions_of_def
  random_suffix_def startRealtimeUpdates_def or_default_def topic_def cleanup_def
  handleContentChange_def publish_def arm_def closure_of_def mounted_world_def

lemma onMessage_receive: "onMessage msg w = receive (map_option u_id (currentUser (ed w))) msg w"
  by (simp add: onMessage_def receive_def)

text \<open>
  What mounting leaves behind. The first run of the effect subscribes with the function
  of the first render, as \<^verbatim>\<open>anonymous\<close> and with a handler that compares with undefined,
  and stores a session row; the second run subscribes as the user and stores a second
  row, whose id replaces the first in \<open>currentSessionId\<close>.
\<close>

lemma mount_opens_twice:
  "map ps_id (prompt_sessions (store (mount sample_user 1000 1100 mounted_world))) =
     [''session_1000_k3x'', ''session_1100_k3x''] \<and>
   currentSessionId (ed (mount sample_user 1000 1100 mounted_world)) = Some ''session_1100_k3x'' \<and>
   currentUser (ed (mount sample_user 1000 1100 mounted_world)) = Some sample_user \<and>
   prompt (ed (mount sample_user 1000 1100 mounted_world)) = Some sample_prompt \<and>
   isLoading (ed (mount sample_user 1000 1100 mounted_world)) = False \<and>
   subscriptions (chan (mount sample_user 1000 1100 mounted_world)) =
     [\<lparr>sub_topic = ''prompt_p1'', sub_userId = ''anonymous'', sub_displayName = ''Anonymous'',
       sub_color = getUserColor ''anonymous'', sub_self = None\<rparr>,
      \<lparr>sub_topic = ''prompt_p1'', sub_userId = ''u1'', sub_displayName = ''ann@example.com'',
       sub_color = getUserColor ''u1'', sub_self = Some ''u1''\<rparr>]"
  by (simp add: open_defs world_defs Let_def)

text \<open>
  C8. The cleanup of the effect never touches the channel: whatever the state, the
  subscriptions that are open before the unmount are open after it. In particular, an
  editor is opened on the sample prompt by the sample user, edited and unmounted. The
  cleanup clears the pending save timer and deletes the presence row that
  \<open>currentSessionId\<close> names; both subscriptions to the prompt's channel are still open
  afterwards, and so is the presence row of the first run of the effect.
\<close>

theorem unmount_keeps_subscription:
  "chan (cleanup w) = chan w \<and>
   (let opened = handleContentChange 2000 ''x'' (mount sample_user 1000 1100 mounted_world);
        unmounted = cleanup opened
    in map ps_id (prompt_sessions (store opened)) = [''session_1000_k3x'', ''session_1100_k3x''] \<and>
       currentSessionId (ed opened) = Some ''session_1100_k3x'' \<and>
       map tm_due (case saveTimeoutRef (ed opened) of None \<Rightarrow> [] | Some tm \<Rightarrow> [tm]) = [4000] \<and>
       map (\<lambda>s. (sub_topic s, sub_userId s)) (subscriptions (chan opened)) =
         [(''prompt_p1'', ''anonymous''), (''prompt_p1'', ''u1'')] \<and>
       map ps_id (prompt_sessions (store unmounted)) = [''session_1000_k3x''] \<and>
       saveTimeoutRef (ed unmounted) = None \<and>
       map (\<lambda>s. (sub_topic s, sub_userId s)) (subscriptions (chan unmounted)) =
         [(''prompt_p1'', ''anonymous''), (''prompt_p1'', ''u1'')])"
proof -
  have "chan (cleanup w) = chan w" by (rule cleanup_chan)
  moreover have "let opened = handleContentChange 2000 ''x'' (mount sample_user 1000 1100 mounted_world);
        unmounted = cleanup opened
    in map ps_id (prompt_sessions (store opened)) = [''session_1000_k3x'', ''session_1100_k3x''] \<and>
       currentSessionId (ed opened) = Some ''session_1100_k3x'' \<and>
       map tm_due (case saveTimeoutRef (ed opened) of None \<Rightarrow> [] | Some tm \<Rightarrow> [tm]) = [4000] \<and>
       map (\<lambda>s. (sub_topic s, sub_userId s)) (subscriptions (chan opened)) =
         [(''prompt_p1'', ''anonymous''), (''prompt_p1'', ''u1'')] \<and>
       map ps_id (prompt_sessions (store unmounted)) = [''session_1000_k3x''] \<and>
       saveTimeoutRef (ed unmounted) = None \<and>
       map (\<lambda>s. (sub_topic s, sub_userId s)) (subscriptions (chan unmounted)) =
         [(''prompt_p1'', ''anonymous''), (''prompt_p1'', ''u1'')]"
    by (simp add: open_defs world_defs Let_def)
  ultimately show ?thesis by blast
qed

section \<open>Properties of the invitations\<close>

lemma div_bounds:
  fixes a n :: int
  assumes "0 < n" "q = a div n"
  shows "q * n \<le> a" "a < q * n + n"
proof -
  have "a = q * n + a mod n" using assms(2) by simp
  moreover have "0 \<le> a mod n" "a mod n < n" using assms(1) by simp_all
  ultimately show "q * n \<le> a" "a < q * n + n" by linarith+
qed

lemma DayFromYear_bounds:
  "3652425 * (y - 1970) - 12650 \<le> 10000 * DayFromYear y \<and>
   10000 * DayFromYear y \<le> 3652425 * (y - 1970) + 14725"
proof -
  define q4 where "q4 = (y - 1969) div 4"
  define q100 where "q100 = (y - 1901) div 100"
  define q400 where "q400 = (y - 1601) div 400"
  have d: "DayFromYear y = 365 * (y - 1970) + q4 - q100 + q400"
    by (simp add: DayFromYear_def q4_def q100_def q400_def)
  note b4 = div_bounds [OF _ q4_def] and b100 = div_bounds [OF _ q100_def]
    and b400 = div_bounds [OF _ q400_def]
  have "q4 * 4 \<le> y - 1969" "y - 1969 < q4 * 4 + 4" "q100 * 100 \<le> y - 1901"
    "y - 1901 < q100 * 100 + 100" "q400 * 400 \<le> y - 1601" "y - 1601 < q400 * 400 + 400"
    by (simp_all add: b4 b100 b400)
  then show ?thesis unfolding d by (intro conjI) (simp_all add: algebra_simps)
qed

text \<open>\<open>YearFromTime\<close> gives the year in which the day of \<open>t\<close> lies.\<close>

lemma YearFromTime_spec:
  "DayFromYear (YearFromTime t) \<le> Day t \<and> Day t < DayFromYear (YearFromTime t + 1)"
proof -
  define d where "d = Day t"
  define k where "k = (d * 10000) div 3652425"
  define y where "y = 1970 + k"
  have "k * 3652425 \<le> d * 10000" "d * 10000 < k * 3652425 + 3652425"
    by (simp_all add: div_bounds [OF _ k_def])
  then have e: "3652425 * (y - 1970) \<le> 10000 * d" "10000 * d < 3652425 * (y - 1970) + 3652425"
    unfolding y_def by (simp_all add: algebra_simps)
  have lo: "DayFromYear (y - 1) \<le> d"
    using DayFromYear_bounds [of "y - 1"] e by (simp add: algebra_simps)
  have hi: "d < DayFromYear (y + 2)"
    using DayFromYear_bounds [of "y + 2"] e by (simp add: algebra_simps)
  have yt: "YearFromTime t =
      (if DayFromYear (y + 1) \<le> d then y + 1 else if DayFromYear y \<le> d then y else y - 1)"
    by (simp add: YearFromTime_def Let_def d_def y_def k_def)
  have two: "y + 1 + 1 = y + 2" "y - 1 + 1 = y" by simp_all
  show ?thesis
    unfolding d_def [symmetric] yt using lo hi by (simp add: two)
qed

lemma MonthFromTime_range: "0 \<le> MonthFromTime t \<and> MonthFromTime t \<le> 11"
  by (simp add: MonthFromTime_def Let_def)

lemma MakeDay_DateFromTime:
  "MakeDay (YearFromTime t) (MonthFromTime t) (DateFromTime t + n) = Day t + n"
proof -
  have "MonthFromTime t div 12 = 0" "MonthFromTime t mod 12 = MonthFromTime t"
    using MonthFromTime_range [of t] by simp_all
  then show ?thesis
    by (simp add: MakeDay_def DateFromTime_def DayWithinYear_def InLeapYear_def Let_def)
qed

lemma MakeDate_Day: "MakeDate (Day t + n) (TimeWithinDay t) = t + n * msPerDay"
  by (simp add: MakeDate_def Day_def TimeWithinDay_def algebra_simps)

lemma setDate_getDate:
  "setDate tza now (getDate tza now + n) = TimeClip (UTC tza (LocalTime tza now + n * msPerDay))"
  by (simp add: setDate_def getDate_def Let_def MakeDay_DateFromTime MakeDate_Day)

lemma pendingInvitations_set:
  "set (pendingInvitations ws b) =
     {i \<in> set (workspaceInvitations b). wi_workspaceId i = ws \<and> wi_acceptedAt i = None}"
  by (simp add: pendingInvitations_def)

lemma handleInviteMember_row:
  assumes "trim (inviteEmail v) \<noteq> []" "canPerformAction (mp_userRole v) Admin" "faults b = []"
    and "\<bar>UTC tza (LocalTime tza now + 7 * msPerDay)\<bar> \<le> 8640000000000000"
  shows "workspaceInvitations (snd (handleInviteMember lower tza now rid (v, b))) =
           workspaceInvitations b @
             [\<lparr>wi_id = rid, wi_workspaceId = mp_workspaceId v,
               wi_email = trim (lower (inviteEmail v)), wi_role = inviteRole v,
               wi_invitedBy = mp_userId v,
               wi_expiresAt = UTC tza (LocalTime tza now + 7 * msPerDay),
               wi_acceptedAt = None, wi_createdAt = now\<rparr>]"
  using assms
  by (simp add: handleInviteMember_def setDate_getDate TimeClip_def request_no_faults
        loadInvitations_def Let_def split: prod.splits)

lemma same_offset_week:
  assumes "tza (LocalTime tza now + 7 * msPerDay) False = tza now True"
  shows "UTC tza (LocalTime tza now + 7 * msPerDay) = now + 604800000"
proof -
  have "UTC tza (LocalTime tza now + 7 * msPerDay) =
      LocalTime tza now + 7 * msPerDay - tza now True"
    unfolding UTC_def [of tza "LocalTime tza now + 7 * msPerDay"] assms ..
  then show ?thesis by (simp add: LocalTime_def msPerDay_def)
qed

text \<open>
  C9, as the claim states it. In the zone Europe/Berlin an invitation made on 28 March
  2024 at 12:00 UTC (13:00 on the local clock) expires on 4 April at 13:00 on the local
  clock, which is 11:00 UTC: summer time began in between, and the stored \<open>expiresAt\<close> is
  one hour less than 7 times 24 hours after the time of creation.
\<close>

theorem invitation_expiry_dst_counterexample:
  "map wi_expiresAt
     (workspaceInvitations
        (snd (handleInviteMember ascii_lower berlin_2024 1711627200000 ''i2''
                (sample_panel, sample_backend)))) = [1712228400000] \<and>
   (1712228400000 :: int) = 1711627200000 + 604800000 - 3600000 \<and>
   (1712228400000 :: int) \<noteq> 1711627200000 + 604800000"
proof -
  have h: "trim (inviteEmail sample_panel) \<noteq> []"
    "canPerformAction (mp_userRole sample_panel) Admin" "faults sample_backend = []"
    "workspaceInvitations sample_backend = []"
    by (simp_all add: sample_panel_def sample_backend_def trim_def isWhiteSpace_def)
  have u: "UTC berlin_2024 (LocalTime berlin_2024 1711627200000 + 7 * msPerDay) = 1712228400000"
    by (simp add: UTC_def LocalTime_def berlin_2024_def msPerDay_def)
  have r: "\<bar>UTC berlin_2024 (LocalTime berlin_2024 1711627200000 + 7 * msPerDay)\<bar>
      \<le> 8640000000000000"
    unfolding u by simp
  show ?thesis
    unfolding handleInviteMember_row [OF h(1-3) r] u h(4) by simp
qed

text \<open>
  C9, amended. When the owner invites a non-empty address at time \<open>now\<close> and the store
  answers, one invitation row is added, not accepted, whose \<open>expiresAt\<close> is the time 7
  days after \<open>now\<close> on the local clock, \<open>UTC (LocalTime now + 7 * msPerDay)\<close>; this is
  \<open>now + 604800000\<close> ms when local time has the same offset at both times. The pending
  listing of a workspace is made of the invitations of the workspace whose \<open>acceptedAt\<close>
  is not set: an invitation whose \<open>acceptedAt\<close> is set is not in it.
\<close>

theorem invitation_expiry_local_and_pending:
  "(trim (inviteEmail v) \<noteq> [] \<and> canPerformAction (mp_userRole v) Admin \<and> faults b = [] \<and>
    \<bar>UTC tza (LocalTime tza now + 7 * msPerDay)\<bar> \<le> 8640000000000000 \<longrightarrow>
      workspaceInvitations (snd (handleInviteMember lower tza now rid (v, b))) =
        workspaceInvitations b @
          [\<lparr>wi_id = rid, wi_workspaceId = mp_workspaceId v,
            wi_email = trim (lower (inviteEmail v)), wi_role = inviteRole v,
            wi_invitedBy = mp_userId v,
            wi_expiresAt = UTC tza (LocalTime tza now + 7 * msPerDay),
            wi_acceptedAt = None, wi_createdAt = now\<rparr>]) \<and>
   (tza (LocalTime tza now + 7 * msPerDay) False = tza now True \<longrightarrow>
      UTC tza (LocalTime tza now + 7 * msPerDay) = now + 604800000) \<and>
   set (pendingInvitations ws b) =
     {x \<in> set (workspaceInvitations b). wi_workspaceId x = ws \<and> wi_acceptedAt x = None} \<and>
   (faults b = [] \<longrightarrow>
      invitations (fst (loadInvitations (v, b))) = pendingInvitations (mp_workspaceId v) b) \<and>
   (wi_acceptedAt i \<noteq> None \<longrightarrow> i \<notin> set (pendingInvitations ws b))"
proof (intro conjI impI; (elim conjE)?)
  assume "trim (inviteEmail v) \<noteq> []" "canPerformAction (mp_userRole v) Admin" "faults b = []"
    "\<bar>UTC tza (LocalTime tza now + 7 * msPerDay)\<bar> \<le> 8640000000000000"
  then show "workspaceInvitations (snd (handleInviteMember lower tza now rid (v, b))) =
        workspaceInvitations b @
          [\<lparr>wi_id = rid, wi_workspaceId = mp_workspaceId v,
            wi_email = trim (lower (inviteEmail v)), wi_role = inviteRole v,
            wi_invitedBy = mp_userId v,
            wi_expiresAt = UTC tza (LocalTime tza now + 7 * msPerDay),
            wi_acceptedAt = None, wi_createdAt = now\<rparr>]"
    by (rule handleInviteMember_row)
next
  assume "tza (LocalTime tza now + 7 * msPerDay) False = tza now True"
  then show "UTC tza (LocalTime tza now + 7 * msPerDay) = now + 604800000"
    by (rule same_offset_week)
next
  show "set (pendingInvitations ws b) =
     {x \<in> set (workspaceInvitations b). wi_workspaceId x = ws \<and> wi_acceptedAt x = None}"
    by (rule pendingInvitations_set)
next
  assume "faults b = []"
  then show "invitations (fst (loadInvitations (v, b))) = pendingInvitations (mp_workspaceId v) b"
    by (simp add: loadInvitations_def request_no_faults)
next
  assume "wi_acceptedAt i \<noteq> None"
  then show "i \<notin> set (pendingInvitations ws b)"
    by (simp add: pendingInvitations_set)
qed

theorem invitation_expiry_local_and_pending_witness:
  "(let b1 = sample_backend\<lparr>workspaceInvitations := [accepted_invitation]\<rparr>
    in trim (inviteEmail sample_panel) \<noteq> [] \<and> canPerformAction (mp_userRole sample_panel) Admin \<and>
       faults b1 = [] \<and>
       \<bar>UTC berlin_2024 (LocalTime berlin_2024 1706659200000 + 7 * msPerDay)\<bar>
         \<le> 8640000000000000 \<and>
       berlin_2024 (LocalTime berlin_2024 1706659200000 + 7 * msPerDay) False =
         berlin_2024 1706659200000 True \<and>
       workspaceInvitations
         (snd (handleInviteMember ascii_lower berlin_2024 1706659200000 ''i2'' (sample_panel, b1))) =
         [accepted_invitation,
          \<lparr>wi_id = ''i2'', wi_workspaceId = ''w1'', wi_email = [99, 121, 64, 120, 46, 105, 111],
           wi_role = InviteViewer, wi_invitedBy = ''u1'', wi_expiresAt = 1707264000000,
           wi_acceptedAt = None, wi_createdAt = 1706659200000\<rparr>] \<and>
       wi_acceptedAt accepted_invitation \<noteq> None \<and>
       accepted_invitation \<in> set (workspaceInvitations b1) \<and>
       accepted_invitation \<notin> set (pendingInvitations ''w1'' b1) \<and>
       invitations (fst (loadInvitations (sample_panel, b1))) = [])"
proof -
  let ?b1 = "sample_backend\<lparr>workspaceInvitations := [accepted_invitation]\<rparr>"
  have h1: "trim (inviteEmail sample_panel) \<noteq> []"
    "trim (ascii_lower (inviteEmail sample_panel)) = [99, 121, 64, 120, 46, 105, 111]"
    by (simp_all add: sample_panel_def trim_def isWhiteSpace_def ascii_lower_def)
  have h2: "canPerformAction (mp_userRole sample_panel) Admin" "faults ?b1 = []"
    "\<bar>UTC berlin_2024 (LocalTime berlin_2024 1706659200000 + 7 * msPerDay)\<bar>
       \<le> 8640000000000000"
    "berlin_2024 (LocalTime berlin_2024 1706659200000 + 7 * msPerDay) False =
       berlin_2024 1706659200000 True"
    "wi_acceptedAt accepted_invitation \<noteq> None"
    "accepted_invitation \<in> set (workspaceInvitations ?b1)"
    by (simp_all add: sample_panel_def sample_backend_def accepted_invitation_def UTC_def
          LocalTime_def msPerDay_def berlin_2024_def)
  have f: "workspaceInvitations ?b1 = [accepted_invitation]" "mp_workspaceId sample_panel = ''w1''"
    "inviteRole sample_panel = InviteViewer" "mp_userId sample_panel = ''u1''"
    by (simp_all add: sample_panel_def)
  note t = invitation_expiry_local_and_pending [where v = sample_panel and b = ?b1
      and now = 1706659200000 and tza = berlin_2024 and rid = "''i2''" and lower = ascii_lower
      and i = accepted_invitation and ws = "''w1''"]
  from t h1(1) h2(1-3)
  have c1: "workspaceInvitations
         (snd (handleInviteMember ascii_lower berlin_2024 1706659200000 ''i2'' (sample_panel, ?b1))) =
      workspaceInvitations ?b1 @
          [\<lparr>wi_id = ''i2'', wi_workspaceId = mp_workspaceId sample_panel,
            wi_email = trim (ascii_lower (inviteEmail sample_panel)),
            wi_role = inviteRole sample_panel, wi_invitedBy = mp_userId sample_panel,
            wi_expiresAt = UTC berlin_2024 (LocalTime berlin_2024 1706659200000 + 7 * msPerDay),
            wi_acceptedAt = None, wi_createdAt = 1706659200000\<rparr>]"
    by blast
  from t h2(4)
  have c2: "UTC berlin_2024 (LocalTime berlin_2024 1706659200000 + 7 * msPerDay) =
      1706659200000 + 604800000"
    by blast
  from t h2(5) have c3: "accepted_invitation \<notin> set (pendingInvitations ''w1'' ?b1)"
    by blast
  from t h2(2)
  have c4: "invitations (fst (loadInvitations (sample_panel, ?b1))) = pendingInvitations ''w1'' ?b1"
    unfolding f(2) by blast
  from t have "set (pendingInvitations ''w1'' ?b1) =
     {x \<in> set (workspaceInvitations ?b1). wi_workspaceId x = ''w1'' \<and> wi_acceptedAt x = None}"
    by blast
  then have "set (pendingInvitations ''w1'' ?b1) = {}"
    unfolding f(1) using h2(5) by simp
  then have c5: "invitations (fst (loadInvitations (sample_panel, ?b1))) = []"
    unfolding c4 by simp
  have c6: "workspaceInvitations
         (snd (handleInviteMember ascii_lower berlin_2024 1706659200000 ''i2'' (sample_panel, ?b1))) =
         [accepted_invitation,
          \<lparr>wi_id = ''i2'', wi_workspaceId = ''w1'', wi_email = [99, 121, 64, 120, 46, 105, 111],
           wi_role = InviteViewer, wi_invitedBy = ''u1'', wi_expiresAt = 1707264000000,
           wi_acceptedAt = None, wi_createdAt = 1706659200000\<rparr>]"
    unfolding c1 c2 f h1(2) by simp
  from h1(1) h2 c3 c5 c6 show ?thesis unfolding Let_def by blast
qed

section \<open>Numbering of the versions\<close>

lemma Max_upto: "Max (insert 0 (set (map int [1..<Suc n]))) = int n"
proof -
  have "insert 0 (set (map int [1..<Suc n])) = int ` {0..n}" by (auto simp: image_iff)
  moreover have "Max {0..n} = n" by (intro Max_eqI) auto
  ultimately show ?thesis by (simp add: mono_Max_commute [symmetric] mono_def)
qed

text \<open>
  Calls of \<open>savePrompt\<close> that each come from the render current at the call, in a ready
  editor whose list of versions is the one just loaded, number the versions of the prompt
  \<open>n + 1\<close>, \<open>n + 2\<close> and so on after the \<open>n\<close> that exist.
\<close>

lemma sequential_saves_numbered:
  assumes "prompt (ed w) \<noteq> None" "currentUser (ed w) \<noteq> None" "faults (store w) = []"
    and "versions (ed w) = latestVersions (promptId (ed w)) (store w)"
    and "map pv_version_number (versions_of (promptId (ed w)) (store w)) = map int [1..<Suc n]"
  shows "map pv_version_number (versions_of (promptId (ed w)) (store (saves calls w))) =
           map int [1..<Suc (n + length calls)]"
  using assms
proof (induction calls arbitrary: w n)
  case Nil
  then show ?case by simp
next
  case (Cons call calls)
  obtain now c t d where call: "call = (now, c, t, d)" by (cases call)
  from Cons.prems obtain p u where pu: "prompt (ed w) = Some p" "currentUser (ed w) = Some u"
    by auto
  let ?cl = "closure_of (ed w)"
  let ?w = "savePrompt ?cl now c t d w"
  let ?row = "newVersion (promptId (ed w)) (sc_versions ?cl) u now (randoms w (drawn w)) c t d"
  have cl: "sc_prompt ?cl = Some p" "sc_currentUser ?cl = Some u"
    using pu by (simp_all add: closure_of_fields)
  note sp = savePrompt_ok_fields [OF cl Cons.prems(3), of now c t d]
  have "pv_version_number ` set (versions_of (promptId (ed w)) (store w)) = set (map int [1..<Suc n])"
    using Cons.prems(5) by (metis set_map)
  then have mx: "Max (insert 0 (pv_version_number ` set (versions_of (promptId (ed w)) (store w)))) = int n"
    by (simp only: Max_upto)
  have num: "pv_version_number ?row = int (Suc n)"
    using Cons.prems(4) mx by (simp add: newVersion_def closure_of_fields nextVersionNumber_latest)
  have pid: "pv_prompt_id ?row = promptId (ed w)" by (simp add: newVersion_def)
  have vo: "versions_of (promptId (ed w)) (store ?w) = versions_of (promptId (ed w)) (store w) @ [?row]"
    unfolding versions_of_def sp(1) using pid by simp
  have "map pv_version_number (versions_of (promptId (ed ?w)) (store (saves calls ?w))) =
          map int [1..<Suc (Suc n + length calls)]"
  proof (rule Cons.IH)
    show "prompt (ed ?w) \<noteq> None" "currentUser (ed ?w) \<noteq> None" using sp(5,6) pu by simp_all
    show "faults (store ?w) = []" by (rule sp(3))
    show "versions (ed ?w) = latestVersions (promptId (ed ?w)) (store ?w)" using sp(4,7) by simp
    show "map pv_version_number (versions_of (promptId (ed ?w)) (store ?w)) = map int [1..<Suc (Suc n)]"
      unfolding sp(4) vo using num Cons.prems(5) by simp
  qed
  then show ?case using sp(4) by (simp add: call)
qed

lemmas run_defs = advance_def handleContentChange_def handleTitleChange_def
  handleDescriptionChange_def handleManualSave_def restoreVersion_def savePrompt_def arm_def
  closure_of_def publish_def topic_def request_def random_suffix_def loadVersions_def
  latestVersions_def versions_of_def nextVersionNumber_def newVersion_def updatedPrompts_def
  or_default_def first_version_def Let_def

text \<open>
  C1. The version log of the sample prompt is empty. The user types at 0 ms (the timer
  saves at 2000 ms), types again at 3000 ms, and at 3500 ms restores the version just
  made, which saves at once. The timer armed at 3000 ms fires at 5000 ms with the
  \<open>savePrompt\<close> of the render that armed it, whose list of versions is the one from before
  the restore. The three saves, one after the other, are numbered 1, 2 and 2.
\<close>

theorem stale_timer_repeats_version_number:
  "versions_of ''p1'' (store ready_world) = [] \<and>
   versions (ed (advance 3500 (run [(0, ContentChange ''a''), (3000, ContentChange ''b'')] ready_world))) =
     [first_version] \<and>
   (let w = advance 5000 (run [(0, ContentChange ''a''), (3000, ContentChange ''b''),
                               (3500, RestoreVersion first_version)] ready_world)
    in map pv_created_at (versions_of ''p1'' (store w)) = [2000, 3500, 5000] \<and>
       map pv_version_number (versions_of ''p1'' (store w)) = [1, 2, 2])"
  by (simp add: run_defs world_defs)

end
